theory Spec2Isabelle
  imports Complex_Main "HOL-Library.AList" "HOL-Library.Sublist"
begin

text \<open>
  A model of the synchronisation core of the Node-RED dashboard: the chart widget's
  history with its three eviction policies (\<open>onInput\<close> of the chart node), and the base
  node's registry, its eligibility check for outgoing messages, its debounced
  configuration emission and its handling of widget actions. Each definition follows the
  JavaScript function whose name it bears; what a function does to the stores, the
  registry or the outside is made a value it returns, and what it throws is an \<open>error\<close>.
\<close>


section \<open>JavaScript values\<close>

text \<open>
  The dashboard is JavaScript: a message, a widget configuration or a state entry is a
  dynamically typed value. The values the code below inspects are the primitives, arrays
  and plain objects. A number is \<open>NaN\<close>, an infinity or a finite value; the finite values
  are rationals, which covers every double (the two zeros are one value: nothing below
  tells them apart). An object is an association list of its own properties, read with
  \<open>map_of\<close>, written with \<open>AList.update\<close> and removed from with \<open>AList.delete\<close>.
\<close>

datatype number = NaN | NegInfinity | Finite rat | Infinity

datatype jsval =
    JUndefined
  | JNull
  | JBool bool
  | JNum number
  | JStr string
  | JArr "jsval list"
  | JObj "(string \<times> jsval) list"

type_synonym obj = "(string \<times> jsval) list"

datatype error = TypeError | SyntaxError | HandlerError string

text \<open>Truthiness, as \<open>if (v)\<close>, \<open>!v\<close>, \<open>a || b\<close> and \<open>a && b\<close> read a value.\<close>

fun numTruthy :: "number \<Rightarrow> bool" where
  "numTruthy NaN = False"
| "numTruthy (Finite q) = (q \<noteq> 0)"
| "numTruthy n = True"

fun truthy :: "jsval \<Rightarrow> bool" where
  "truthy JUndefined = False"
| "truthy JNull = False"
| "truthy (JBool b) = b"
| "truthy (JNum n) = numTruthy n"
| "truthy (JStr s) = (s \<noteq> [])"
| "truthy (JArr xs) = True"
| "truthy (JObj kvs) = True"

definition jsOr :: "jsval \<Rightarrow> jsval \<Rightarrow> jsval" where
  "jsOr a b = (if truthy a then a else b)"

text \<open>\<open>o.k\<close> on an object: the property's value, or \<open>undefined\<close> when it has none.\<close>

definition field :: "obj \<Rightarrow> string \<Rightarrow> jsval" where
  "field ob k = (case map_of ob k of None \<Rightarrow> JUndefined | Some v \<Rightarrow> v)"

text \<open>
  \<open>v.k\<close> on any value, for a key \<open>k\<close> that is no built-in property (\<open>category\<close>, \<open>x\<close>,
  \<open>hooks\<close>): reading a property of \<open>undefined\<close> or \<open>null\<close> throws a TypeError, a primitive
  or an array has no such property.
\<close>

fun getProp :: "jsval \<Rightarrow> string \<Rightarrow> error + jsval" where
  "getProp JUndefined k = Inl TypeError"
| "getProp JNull k = Inl TypeError"
| "getProp (JObj kvs) k = Inr (field kvs k)"
| "getProp v k = Inr JUndefined"

text \<open>\<open>v?.k\<close>: \<open>undefined\<close> instead of the TypeError.\<close>

definition optChain :: "jsval \<Rightarrow> string \<Rightarrow> jsval" where
  "optChain v k = (case getProp v k of Inl e \<Rightarrow> JUndefined | Inr r \<Rightarrow> r)"

subsection \<open>The runtime's numbers\<close>

text \<open>
  Parsing a date or a number out of a string, printing a number, and the rounding of
  floating-point multiplication and subtraction belong to the JavaScript runtime, not to
  the dashboard; the model takes them as parameters, so that what is proved holds
  whatever they compute. \<open>numberToString\<close> is asked only for the numbers whose text is
  not their plain decimal digits.
\<close>

record runtime =
  dateParse :: "string \<Rightarrow> number"
  stringToNumber :: "string \<Rightarrow> number"
  numberToString :: "rat \<Rightarrow> string"
  multiply :: "number \<Rightarrow> number \<Rightarrow> number"
  subtract :: "number \<Rightarrow> number \<Rightarrow> number"

text \<open>\<open>a < b\<close>, \<open>a > b\<close> and \<open>a >= b\<close> on numbers: exact, and false whenever \<open>NaN\<close> takes part.\<close>

fun numLess :: "number \<Rightarrow> number \<Rightarrow> bool" where
  "numLess (Finite a) (Finite b) = (a < b)"
| "numLess (Finite a) Infinity = True"
| "numLess NegInfinity (Finite b) = True"
| "numLess NegInfinity Infinity = True"
| "numLess a b = False"

definition greater :: "number \<Rightarrow> number \<Rightarrow> bool" where
  "greater a b = numLess b a"

definition numAtLeast :: "number \<Rightarrow> number \<Rightarrow> bool" where
  "numAtLeast a b = (a \<noteq> NaN \<and> b \<noteq> NaN \<and> \<not> numLess a b)"

subsection \<open>Property keys\<close>

text \<open>
  \<open>seen[series] = index\<close> and \<open>lineCounts[label]\<close> index a plain object by an arbitrary
  value: JavaScript converts the value to a string first. An integer below \<open>2^53\<close>
  prints its decimal digits; any other finite number prints as the runtime's shortest
  round-trip text. An array prints its elements joined by commas (\<open>null\<close> and
  \<open>undefined\<close> as the empty string). An object prints as \<open>[object Object]\<close> through the
  \<open>toString\<close> it inherits; when it has a property \<open>toString\<close> of its own, which in a
  value without functions cannot be called, the conversion throws a TypeError.
\<close>

definition digitChar :: "nat \<Rightarrow> char" where
  "digitChar d = ''0123456789'' ! d"

fun natToString :: "nat \<Rightarrow> string" where
  "natToString n =
     (if n < 10 then [digitChar n] else natToString (n div 10) @ [digitChar (n mod 10)])"

declare natToString.simps [simp del]

definition intToString :: "int \<Rightarrow> string" where
  "intToString i = (if i < 0 then CHR ''-'' # natToString (nat (- i)) else natToString (nat i))"

fun numberKey :: "runtime \<Rightarrow> number \<Rightarrow> string" where
  "numberKey rt NaN = ''NaN''"
| "numberKey rt NegInfinity = ''-Infinity''"
| "numberKey rt Infinity = ''Infinity''"
| "numberKey rt (Finite q) =
     (if of_int \<lfloor>q\<rfloor> = q \<and> \<bar>q\<bar> < 2 ^ 53 then intToString \<lfloor>q\<rfloor> else numberToString rt q)"

fun joinComma :: "string list \<Rightarrow> string" where
  "joinComma [] = []"
| "joinComma [s] = s"
| "joinComma (s # t # ss) = s @ '','' @ joinComma (t # ss)"

text \<open>The texts of an array's elements, in order; the first element that throws ends it.\<close>

fun elementTexts :: "(jsval \<times> (error + string)) list \<Rightarrow> error + string list" where
  "elementTexts [] = Inr []"
| "elementTexts ((v, r) # rest) =
     (case (if v = JUndefined \<or> v = JNull then Inr [] else r) of
        Inl e \<Rightarrow> Inl e
      | Inr s \<Rightarrow> (case elementTexts rest of Inl e \<Rightarrow> Inl e | Inr ss \<Rightarrow> Inr (s # ss)))"

primrec propKey :: "runtime \<Rightarrow> jsval \<Rightarrow> error + string" where
  "propKey rt JUndefined = Inr ''undefined''"
| "propKey rt JNull = Inr ''null''"
| "propKey rt (JBool b) = Inr (if b then ''true'' else ''false'')"
| "propKey rt (JNum n) = Inr (numberKey rt n)"
| "propKey rt (JStr s) = Inr s"
| "propKey rt (JArr xs) =
     (case elementTexts (zip xs (map (propKey rt) xs)) of
        Inl e \<Rightarrow> Inl e
      | Inr ss \<Rightarrow> Inr (joinComma ss))"
| "propKey rt (JObj kvs) =
     (if ''toString'' \<in> set (map fst kvs) then Inl TypeError else Inr ''[object Object]'')"

text \<open>
  A value compared with a number is converted to a number: \<open>undefined\<close> is \<open>NaN\<close>, \<open>null\<close>
  is 0, an array or an object goes through its text.
\<close>

fun toNumber :: "runtime \<Rightarrow> jsval \<Rightarrow> error + number" where
  "toNumber rt JUndefined = Inr NaN"
| "toNumber rt JNull = Inr (Finite 0)"
| "toNumber rt (JBool b) = Inr (Finite (if b then 1 else 0))"
| "toNumber rt (JNum n) = Inr n"
| "toNumber rt (JStr s) = Inr (stringToNumber rt s)"
| "toNumber rt v = (case propKey rt v of Inl e \<Rightarrow> Inl e | Inr s \<Rightarrow> Inr (stringToNumber rt s))"

text \<open>
  \<open>JSON.parse(JSON.stringify(p))\<close>: \<open>undefined\<close> stringifies to \<open>undefined\<close>, which
  \<open>JSON.parse\<close> rejects with a SyntaxError; inside an array \<open>undefined\<close> becomes \<open>null\<close>,
  inside an object the property is left out; a number that is not finite becomes \<open>null\<close>.
\<close>

primrec jsonValue :: "jsval \<Rightarrow> jsval" where
  "jsonValue JUndefined = JNull"
| "jsonValue JNull = JNull"
| "jsonValue (JBool b) = JBool b"
| "jsonValue (JNum n) = (case n of Finite q \<Rightarrow> JNum n | _ \<Rightarrow> JNull)"
| "jsonValue (JStr s) = JStr s"
| "jsonValue (JArr xs) = JArr (map jsonValue xs)"
| "jsonValue (JObj kvs) =
     JObj (map (\<lambda>(kv, kv'). kv')
            (filter (\<lambda>(kv, kv'). snd kv \<noteq> JUndefined)
               (zip kvs (map (map_prod id jsonValue) kvs))))"

definition jsonClone :: "jsval \<Rightarrow> error + jsval" where
  "jsonClone p = (if p = JUndefined then Inl SyntaxError else Inr (jsonValue p))"

subsection \<open>Objects used as tables\<close>

text \<open>
  \<open>seen\<close> and \<open>lineCounts\<close> are created by \<open>{}\<close> and so inherit from \<open>Object.prototype\<close>.
  Reading a key the table does not have itself finds what the prototype has under that
  name: one of its functions, or for \<open>__proto__\<close> the prototype object. \<open>Builtin\<close> stands
  for such a function or object: it is truthy and converts to \<open>NaN\<close>. Assigning to a key
  makes it a property of the table, except for \<open>__proto__\<close>: that assignment goes to the
  prototype's setter, which ignores a number and, given the prototype object the table
  already has, changes nothing.
\<close>

definition objectPrototype :: "string list" where
  "objectPrototype =
     [''constructor'', ''__defineGetter__'', ''__defineSetter__'', ''hasOwnProperty'',
      ''__lookupGetter__'', ''__lookupSetter__'', ''isPrototypeOf'', ''propertyIsEnumerable'',
      ''toString'', ''valueOf'', ''toLocaleString'']"

datatype slot = Builtin | Held number

definition tableGet :: "(string \<times> slot) list \<Rightarrow> string \<Rightarrow> slot option" where
  "tableGet own k =
     (if k = ''__proto__'' then Some Builtin
      else (case map_of own k of
              Some v \<Rightarrow> Some v
            | None \<Rightarrow> if k \<in> set objectPrototype then Some Builtin else None))"

definition tableSet :: "string \<Rightarrow> 'v \<Rightarrow> (string \<times> 'v) list \<Rightarrow> (string \<times> 'v) list" where
  "tableSet k v own = (if k = ''__proto__'' then own else AList.update k v own)"

text \<open>\<open>v || 0\<close>, the number \<open>v\<close> is compared as, and \<open>v++\<close> on what a table holds.\<close>

fun orZero :: "slot option \<Rightarrow> slot" where
  "orZero None = Held (Finite 0)"
| "orZero (Some Builtin) = Builtin"
| "orZero (Some (Held n)) = (if numTruthy n then Held n else Held (Finite 0))"

fun slotNumber :: "slot option \<Rightarrow> number" where
  "slotNumber (Some (Held n)) = n"
| "slotNumber v = NaN"

fun increment :: "number \<Rightarrow> number" where
  "increment (Finite q) = Finite (q + 1)"
| "increment n = n"

section \<open>The chart widget's history (ui_chart.js)\<close>

subsection \<open>The data store\<close>

text \<open>
  Modelled from the spec: the History Store (\<open>store/data.js\<close> is not among the sources).
  It keeps, per widget id, the sequence of stored messages in insertion order: \<open>get\<close>
  reads it (\<open>undefined\<close> when the widget has none), \<open>save\<close> replaces it, \<open>append\<close> adds one
  message at the end. A stored message is an object, the copy \<open>{...msg}\<close> made by the caller.
\<close>

type_synonym datastore = "string \<rightharpoonup> obj list"

definition datastore_get :: "datastore \<Rightarrow> string \<Rightarrow> obj list option" where
  "datastore_get ds nodeId = ds nodeId"

definition datastore_save :: "datastore \<Rightarrow> string \<Rightarrow> obj list \<Rightarrow> datastore" where
  "datastore_save ds nodeId msgs = ds(nodeId \<mapsto> msgs)"

definition datastore_append :: "datastore \<Rightarrow> string \<Rightarrow> obj \<Rightarrow> datastore" where
  "datastore_append ds nodeId m =
     ds(nodeId \<mapsto> (case ds nodeId of None \<Rightarrow> [] | Some h \<Rightarrow> h) @ [m])"

subsection \<open>Configuration\<close>

text \<open>
  A numeric field of the node's configuration is read twice: for its truthiness
  (\<open>config.removeOlder && ...\<close>) and through \<open>parseInt\<close> or \<open>parseFloat\<close>. \<open>Blank\<close> is a
  falsy field (empty string, \<open>undefined\<close>, \<open>0\<close>), whose parsed value is never used;
  \<open>Parsed n\<close> is a truthy field that parses to \<open>n\<close>, which is \<open>NaN\<close> for a field that is
  not numeric and may be a fraction for \<open>parseFloat\<close> (the string \<open>"0"\<close> is \<open>Parsed (Finite 0)\<close>,
  \<open>"1.5"\<close> is \<open>Parsed (Finite (3/2))\<close>).
\<close>

datatype knob = Blank | Parsed number

fun knobTruthy :: "knob \<Rightarrow> bool" where
  "knobTruthy Blank = False"
| "knobTruthy (Parsed n) = True"

fun knobNumber :: "knob \<Rightarrow> number" where
  "knobNumber Blank = NaN"
| "knobNumber (Parsed n) = n"

record chartConfig =
  action :: string
  xAxisType :: string
  removeOlderPoints :: knob
  removeOlder :: knob
  removeOlderUnit :: knob

datatype outcome = Sent | Thrown error

subsection \<open>Appending\<close>

text \<open>\<open>Array.isArray(msg.payload) && !msg.payload.length\<close>\<close>

fun isEmptyArray :: "jsval \<Rightarrow> bool" where
  "isEmptyArray (JArr xs) = (xs = [])"
| "isEmptyArray v = False"

text \<open>
  \<open>msg._datapoint[i]\<close>, read only when \<open>msg._datapoint\<close> is truthy: an element of an array,
  a property of an object, a character of a string, \<open>undefined\<close> otherwise and out of range.
\<close>

fun getIndex :: "jsval \<Rightarrow> nat \<Rightarrow> jsval" where
  "getIndex (JArr xs) i = (if i < length xs then xs ! i else JUndefined)"
| "getIndex (JObj kvs) i = field kvs (natToString i)"
| "getIndex (JStr s) i = (if i < length s then JStr [s ! i] else JUndefined)"
| "getIndex v i = JUndefined"

text \<open>
  \<open>msg.payload.forEach((p, i) => ...)\<close>: each element is cloned through JSON and stored
  with its own \<open>_datapoint\<close>. A clone that throws ends the loop; the elements before it
  are already stored.
\<close>

fun appendEach :: "string \<Rightarrow> obj \<Rightarrow> nat \<Rightarrow> jsval list \<Rightarrow> datastore \<Rightarrow> datastore \<times> error option" where
  "appendEach nodeId msg i [] ds = (ds, None)"
| "appendEach nodeId msg i (p # ps) ds =
     (case jsonClone p of
        Inl e \<Rightarrow> (ds, Some e)
      | Inr payload \<Rightarrow>
          (let d = (if truthy (field msg ''_datapoint'')
                    then getIndex (field msg ''_datapoint'') i else JNull);
               m = AList.update ''_datapoint'' d (AList.update ''payload'' payload msg)
           in appendEach nodeId msg (Suc i) ps (datastore_append ds nodeId m)))"

definition appendPayload :: "string \<Rightarrow> obj \<Rightarrow> datastore \<Rightarrow> datastore \<times> error option" where
  "appendPayload nodeId msg ds =
     (case field msg ''payload'' of
        JArr ps \<Rightarrow> appendEach nodeId msg 0 ps ds
      | _ \<Rightarrow> (datastore_append ds nodeId msg, None))"

subsection \<open>Latest entry per category\<close>

text \<open>\<open>m._datapoint.category\<close> and \<open>msg._datapoint.x\<close>\<close>

definition datapointCategory :: "obj \<Rightarrow> error + jsval" where
  "datapointCategory m = getProp (field m ''_datapoint'') ''category''"

definition datapointX :: "obj \<Rightarrow> error + jsval" where
  "datapointX m = getProp (field m ''_datapoint'') ''x''"

text \<open>
  \<open>_msg.forEach((m, index) => { seen[m._datapoint.category] = index })\<close>: \<open>seen\<close> is a
  table, the category its key.
\<close>

fun recordSeen ::
  "runtime \<Rightarrow> (string \<times> nat) list \<Rightarrow> nat \<Rightarrow> obj list \<Rightarrow> error + (string \<times> nat) list"
where
  "recordSeen rt seen index [] = Inr seen"
| "recordSeen rt seen index (m # ms) =
     (case datapointCategory m of
        Inl e \<Rightarrow> Inl e
      | Inr series \<Rightarrow>
          (case propKey rt series of
             Inl e \<Rightarrow> Inl e
           | Inr key \<Rightarrow> recordSeen rt (tableSet key index seen) (Suc index) ms))"

text \<open>
  \<open>_msg.filter((msg, index) => indices.includes(index))\<close>, with \<open>indices\<close> the values of
  the table's own properties (\<open>Object.values(seen)\<close>).
\<close>

definition keepIndices :: "nat list \<Rightarrow> 'a list \<Rightarrow> 'a list" where
  "keepIndices indices xs =
     map snd (filter (\<lambda>(index, m). index \<in> set indices) (enumerate 0 xs))"

definition latestPerCategory :: "runtime \<Rightarrow> obj list \<Rightarrow> error + obj list" where
  "latestPerCategory rt h =
     (case recordSeen rt [] 0 h of
        Inl e \<Rightarrow> Inl e
      | Inr seen \<Rightarrow> Inr (keepIndices (map snd seen) h))"

subsection \<open>Count window per label\<close>

text \<open>
  The loop runs from the newest entry to the oldest and splices out an entry once its
  label has \<open>maxPoints\<close> entries kept; splicing at \<open>i\<close> moves no entry below \<open>i\<close>. The model
  walks the reversed history and returns the kept entries, newest first. \<open>lineCounts\<close> is
  a table indexed by \<open>msg.topic\<close>; a count stays far below \<open>2^53\<close>, so adding one to it
  is exact. The loop body is
  \<open>lineCounts[label] = lineCounts[label] || 0;
   if (lineCounts[label] >= maxPoints) { _msg.splice(i, 1) } else { lineCounts[label]++ }\<close>.
\<close>

fun trawl :: "runtime \<Rightarrow> number \<Rightarrow> (string \<times> slot) list \<Rightarrow> obj list \<Rightarrow> error + obj list" where
  "trawl rt maxPoints lineCounts [] = Inr []"
| "trawl rt maxPoints lineCounts (m # older) =
     (case propKey rt (field m ''topic'') of
        Inl e \<Rightarrow> Inl e
      | Inr label \<Rightarrow>
          (let counts = tableSet label (orZero (tableGet lineCounts label)) lineCounts;
               n = slotNumber (tableGet counts label)
           in if numAtLeast n maxPoints then trawl rt maxPoints counts older
              else (case trawl rt maxPoints (tableSet label (Held (increment n)) counts) older of
                      Inl e \<Rightarrow> Inl e
                    | Inr kept \<Rightarrow> Inr (m # kept))))"

definition latestPerLabel :: "runtime \<Rightarrow> number \<Rightarrow> obj list \<Rightarrow> error + obj list" where
  "latestPerLabel rt maxPoints h =
     (case trawl rt maxPoints [] (rev h) of Inl e \<Rightarrow> Inl e | Inr kept \<Rightarrow> Inr (rev kept))"

subsection \<open>Time window\<close>

text \<open>
  The filter's predicate: a string \<open>x\<close> goes through \<open>Date\<close>, anything else is compared as
  it is, which converts it to a number.
\<close>

definition timestamp :: "runtime \<Rightarrow> jsval \<Rightarrow> error + number" where
  "timestamp rt xv = (case xv of JStr s \<Rightarrow> Inr (dateParse rt s) | _ \<Rightarrow> toNumber rt xv)"

fun filterNewer :: "runtime \<Rightarrow> number \<Rightarrow> obj list \<Rightarrow> error + obj list" where
  "filterNewer rt cutoff [] = Inr []"
| "filterNewer rt cutoff (m # ms) =
     (case datapointX m of
        Inl e \<Rightarrow> Inl e
      | Inr xv \<Rightarrow>
          (case timestamp rt xv of
             Inl e \<Rightarrow> Inl e
           | Inr t \<Rightarrow>
               (case filterNewer rt cutoff ms of
                  Inl e \<Rightarrow> Inl e
                | Inr kept \<Rightarrow> Inr (if greater t cutoff then m # kept else kept))))"

text \<open>
  \<open>cutoff = (new Date()).getTime() - (removeOlder * removeOlderUnit) * 1000\<close>, the two
  factors read by \<open>parseFloat\<close>; \<open>now\<close> is the clock's reading, a whole number of milliseconds.
\<close>

definition cutoffOf :: "runtime \<Rightarrow> chartConfig \<Rightarrow> int \<Rightarrow> number" where
  "cutoffOf rt config now =
     subtract rt (Finite (of_int now))
       (multiply rt
          (multiply rt (knobNumber (removeOlder config)) (knobNumber (removeOlderUnit config)))
          (Finite 1000))"

subsection \<open>onInput\<close>

text \<open>The store as the append finds it: a history exists, emptied when the action is \<open>replace\<close>.\<close>

definition beforeAppend :: "chartConfig \<Rightarrow> string \<Rightarrow> datastore \<Rightarrow> datastore" where
  "beforeAppend config nodeId ds =
     (let ds1 = (if datastore_get ds nodeId = None then datastore_save ds nodeId [] else ds)
      in if action config = ''replace'' then datastore_save ds1 nodeId [] else ds1)"

text \<open>
  The two branches of \<open>if (config.xAxisType === 'category') ... else if (maxPoints &&
  config.removeOlderPoints)\<close>, with \<open>maxPoints = parseInt(config.removeOlderPoints)\<close>.
\<close>

definition evictByCategoryOrCount ::
  "runtime \<Rightarrow> chartConfig \<Rightarrow> string \<Rightarrow> datastore \<Rightarrow> error + datastore"
where
  "evictByCategoryOrCount rt config nodeId ds =
     (let maxPoints = knobNumber (removeOlderPoints config)
      in if xAxisType config = ''category'' then
           (case datastore_get ds nodeId of
              None \<Rightarrow> Inl TypeError
            | Some h \<Rightarrow>
                (case latestPerCategory rt h of
                   Inl e \<Rightarrow> Inl e
                 | Inr kept \<Rightarrow> Inr (datastore_save ds nodeId kept)))
         else if numTruthy maxPoints \<and> knobTruthy (removeOlderPoints config) then
           (case datastore_get ds nodeId of
              None \<Rightarrow> Inl TypeError
            | Some h \<Rightarrow>
                (case latestPerLabel rt maxPoints h of
                   Inl e \<Rightarrow> Inl e
                 | Inr kept \<Rightarrow> Inr (datastore_save ds nodeId kept)))
         else Inr ds)"

definition evictOlder :: "runtime \<Rightarrow> chartConfig \<Rightarrow> int \<Rightarrow> string \<Rightarrow> datastore \<Rightarrow> error + datastore" where
  "evictOlder rt config now nodeId ds =
     (if xAxisType config = ''time'' \<and> knobTruthy (removeOlder config)
           \<and> knobTruthy (removeOlderUnit config) then
        (case datastore_get ds nodeId of
           None \<Rightarrow> Inl TypeError
         | Some h \<Rightarrow>
             (case filterNewer rt (cutoffOf rt config now) h of
                Inl e \<Rightarrow> Inl e
              | Inr kept \<Rightarrow> Inr (datastore_save ds nodeId kept)))
      else Inr ds)"

text \<open>
  \<open>onInput(msg, send)\<close> of the chart node \<open>nodeId\<close>, at time \<open>now\<close>: the store afterwards, and
  whether \<open>send(msg)\<close> was reached or an exception left the handler. What was saved before
  an exception stays saved.
\<close>

definition onInput :: "runtime \<Rightarrow> chartConfig \<Rightarrow> int \<Rightarrow> string \<Rightarrow> obj \<Rightarrow> datastore \<Rightarrow> datastore \<times> outcome" where
  "onInput rt config now nodeId msg ds =
     (if isEmptyArray (field msg ''payload'') then
        (datastore_save
           (if datastore_get ds nodeId = None then datastore_save ds nodeId [] else ds)
           nodeId [], Sent)
      else
        (case appendPayload nodeId msg (beforeAppend config nodeId ds) of
           (ds3, Some e) \<Rightarrow> (ds3, Thrown e)
         | (ds3, None) \<Rightarrow>
             (case evictByCategoryOrCount rt config nodeId ds3 of
                Inl e \<Rightarrow> (ds3, Thrown e)
              | Inr ds4 \<Rightarrow>
                  (case evictOlder rt config now nodeId ds4 of
                     Inl e \<Rightarrow> (ds4, Thrown e)
                   | Inr ds5 \<Rightarrow> (ds5, Sent)))))"

section \<open>The dashboard's base node (ui-base)\<close>

subsection \<open>Registry, sockets and the runtime around the node\<close>

text \<open>
  The hooks a widget registers with (\<open>widgetEvents\<close>): \<open>onAction\<close> is read for its
  truthiness, \<open>beforeSend\<close> is called when it is a function and may throw, \<open>onError\<close> counts
  when it is a function, \<open>onSocket\<close> is a table of custom socket events, here its event names.
\<close>

record hooks =
  hk_onAction :: bool
  hk_beforeSend :: "(jsval \<Rightarrow> error + jsval) option"
  hk_onError :: bool
  hk_onSocket :: "string list option"

definition noHooks :: hooks where
  "noHooks = \<lparr>hk_onAction = False, hk_beforeSend = None, hk_onError = False, hk_onSocket = None\<rparr>"

record widget =
  w_id :: string
  w_type :: string
  w_props :: obj
  w_layout :: obj
  w_state :: obj
  w_hooks :: "hooks option"
  w_src :: jsval
  w_onSocketHandlers :: bool

text \<open>
  \<open>node.ui\<close>: six JavaScript Maps. A Map keeps its keys in insertion order; \<open>set\<close> on a key
  it has replaces the value in place, which is what \<open>AList.update\<close> does.
\<close>

record uiConfig =
  heads :: "(string \<times> obj) list"
  dashboards :: "(string \<times> obj) list"
  pages :: "(string \<times> obj) list"
  themes :: "(string \<times> obj) list"
  groups :: "(string \<times> obj) list"
  widgets :: "(string \<times> widget) list"

record socket =
  sock_id :: string

text \<open>A node of the Node-RED runtime, as \<open>RED.nodes.getNode\<close> returns it.\<close>

record rednode =
  n_id :: string
  n_type :: string
  n_props :: obj
  n_hasError :: bool

record plugin =
  onIsValidConnection :: "(socket \<Rightarrow> obj \<Rightarrow> jsval) option"
  onActionHook :: "(socket \<Rightarrow> string \<Rightarrow> jsval \<Rightarrow> jsval) option"

text \<open>
  What the node reads from its surroundings: its own configuration \<open>n\<close>, the plugins and
  nodes of the runtime, the third-party widget table, and the two helpers of
  \<open>utils/index.js\<close>, which is not among the sources and is taken as it comes.
\<close>

record env =
  baseId :: string
  baseConfig :: obj
  acceptsClientConfig :: "string list option"
  plugins :: "plugin list"
  getNode :: "string \<Rightarrow> rednode option"
  subflowOf :: "jsval \<Rightarrow> jsval option"
  contribs :: obj
  addConnectionCredentials :: "socket \<Rightarrow> jsval \<Rightarrow> jsval"
  appendTopic :: "obj \<Rightarrow> rednode \<Rightarrow> jsval \<Rightarrow> error + jsval"

datatype reporter = WidgetOnError | WidgetNodeError | BaseNodeError

text \<open>
  The state of one base node: its registry, the state store, the live connections, the
  debounce timer (the time it is due, when one is set), the clock, and what the node has
  done to the outside: \<open>ui-config\<close> emissions, \<open>socket.off\<close> calls, messages sent on
  through a widget node, errors reported, and the \<open>input\<close> listeners attached to widget
  nodes, each with the node's id and the \<open>widgetConfig\<close> it closes over (\<open>None\<close> when
  \<open>register\<close> was called without one).
\<close>

record base =
  ui :: uiConfig
  statestore :: "(string \<times> obj) list"
  connections :: "(string \<times> socket) list"
  emitConfigRequested :: "nat option"
  clock :: nat
  emitted :: "(string \<times> uiConfig) list"
  offCalls :: "(string \<times> string) list"
  sent :: "(string \<times> jsval) list"
  errors :: "(reporter \<times> error) list"
  inputListeners :: "(string \<times> obj option) list"

subsection \<open>The state store\<close>

text \<open>
  Modelled from the spec: the State Store (\<open>store/state.js\<close> is not among the sources), a
  property-level key/value store keyed by widget id. \<open>getAll\<close> returns the widget's
  object, or \<open>undefined\<close> when nothing was stored for it; \<open>getProperty\<close> returns
  \<open>undefined\<close> for a property not yet set; \<open>set\<close> stores one property.
\<close>

definition statestore_getAll :: "(string \<times> obj) list \<Rightarrow> string \<Rightarrow> obj option" where
  "statestore_getAll store wid = map_of store wid"

definition statestore_getProperty :: "(string \<times> obj) list \<Rightarrow> string \<Rightarrow> string \<Rightarrow> jsval" where
  "statestore_getProperty store wid prop =
     (case map_of store wid of None \<Rightarrow> JUndefined | Some ob \<Rightarrow> field ob prop)"

definition statestore_set :: "(string \<times> obj) list \<Rightarrow> string \<Rightarrow> string \<Rightarrow> jsval \<Rightarrow> (string \<times> obj) list" where
  "statestore_set store wid prop v =
     AList.update wid
       (AList.update prop v (case map_of store wid of None \<Rightarrow> [] | Some ob \<Rightarrow> ob)) store"

subsection \<open>Who may receive a message\<close>

text \<open>\<open>init\<close>: a configuration without \<open>acceptsClientConfig\<close> gets the two default types.\<close>

definition init_acceptsClientConfig :: "string list option \<Rightarrow> string list" where
  "init_acceptsClientConfig cfg =
     (case cfg of None \<Rightarrow> [''ui-control'', ''ui-notification''] | Some types \<Rightarrow> types)"

text \<open>\<open>msg._client?.socketId\<close>\<close>

definition clientSocketId :: "obj \<Rightarrow> jsval" where
  "clientSocketId msg = optChain (field msg ''_client'') ''socketId''"

definition pluginChecks :: "plugin list \<Rightarrow> socket \<Rightarrow> obj \<Rightarrow> jsval list" where
  "pluginChecks ps conn msg =
     concat (map (\<lambda>p. case onIsValidConnection p of None \<Rightarrow> [] | Some hook \<Rightarrow> [hook conn msg]) ps)"

definition isValidConnection :: "plugin list \<Rightarrow> socket \<Rightarrow> obj \<Rightarrow> bool" where
  "isValidConnection ps conn msg =
     (let checks = pluginChecks ps conn msg @
            (if truthy (clientSocketId msg)
             then [JBool (clientSocketId msg = JStr (sock_id conn))] else [])
      in checks = [] \<or> JBool False \<notin> set checks)"

definition nodeAllowsConstraints :: "env \<Rightarrow> rednode option \<Rightarrow> bool" where
  "nodeAllowsConstraints e wNode =
     (case wNode of
        None \<Rightarrow> True
      | Some w \<Rightarrow> n_type w \<in> set (init_acceptsClientConfig (acceptsClientConfig e)))"

definition canSendTo :: "env \<Rightarrow> socket \<Rightarrow> rednode option \<Rightarrow> obj \<Rightarrow> bool" where
  "canSendTo e conn wNode msg =
     ((nodeAllowsConstraints e wNode \<and> isValidConnection (plugins e) conn msg)
      \<or> \<not> nodeAllowsConstraints e wNode)"

subsection \<open>Emitting the configuration\<close>

text \<open>\<open>{ ...a, ...b }\<close>: the properties of \<open>a\<close>, then each property of \<open>b\<close> assigned in order.\<close>

definition spread :: "obj \<Rightarrow> obj \<Rightarrow> obj" where
  "spread a b = foldl (\<lambda>ob (k, v). AList.update k v ob) a b"

definition mergeWidgets :: "(string \<times> obj) list \<Rightarrow> (string \<times> widget) list \<Rightarrow> (string \<times> widget) list" where
  "mergeWidgets store ws =
     foldl (\<lambda>m (wid, w).
              case statestore_getAll store wid of
                None \<Rightarrow> m
              | Some state \<Rightarrow>
                  AList.update wid
                    (w\<lparr>w_props := spread (w_props w) state, w_state := spread (w_state w) state\<rparr>) m)
           ws ws"

definition mergeEntries :: "(string \<times> obj) list \<Rightarrow> (string \<times> obj) list \<Rightarrow> (string \<times> obj) list" where
  "mergeEntries store entries =
     foldl (\<lambda>m (eid, entry).
              case statestore_getAll store eid of
                None \<Rightarrow> m
              | Some state \<Rightarrow> AList.update eid (spread entry state) m)
           entries entries"

definition emitConfig :: "socket \<Rightarrow> base \<Rightarrow> base" where
  "emitConfig sock s =
     (let u = (ui s)\<lparr>widgets := mergeWidgets (statestore s) (widgets (ui s)),
                     pages := mergeEntries (statestore s) (pages (ui s)),
                     groups := mergeEntries (statestore s) (groups (ui s))\<rparr>
      in s\<lparr>ui := u, emitted := emitted s @ [(sock_id sock, u)]\<rparr>)"

subsection \<open>The debounced request\<close>

definition requestEmitConfig :: "base \<Rightarrow> base" where
  "requestEmitConfig s =
     (if emitConfigRequested s \<noteq> None then s
      else s\<lparr>emitConfigRequested := Some (clock s + 300)\<rparr>)"

text \<open>The timer's callback: every connection gets the configuration, then the flag is cleared.\<close>

definition fireEmitConfig :: "base \<Rightarrow> base" where
  "fireEmitConfig s =
     (foldl (\<lambda>st sock. emitConfig sock st) s (map snd (connections s)))
       \<lparr>emitConfigRequested := None\<rparr>"

text \<open>Time passes: the clock advances by \<open>d\<close>, and a timer that is due by then fires.\<close>

definition elapse :: "nat \<Rightarrow> base \<Rightarrow> base" where
  "elapse d s =
     (let s' = s\<lparr>clock := clock s + d\<rparr>
      in case emitConfigRequested s of
           None \<Rightarrow> s'
         | Some due \<Rightarrow> if due \<le> clock s' then fireEmitConfig s' else s')"

datatype event = Request | Elapse nat

fun step :: "base \<Rightarrow> event \<Rightarrow> base" where
  "step s Request = requestEmitConfig s"
| "step s (Elapse d) = elapse d s"

definition run :: "event list \<Rightarrow> base \<Rightarrow> base" where
  "run evs s = foldl step s evs"

fun elapsed :: "event list \<Rightarrow> nat" where
  "elapsed [] = 0"
| "elapsed (Request # evs) = elapsed evs"
| "elapsed (Elapse d # evs) = d + elapsed evs"

subsection \<open>register\<close>

text \<open>
  The ids and types of the runtime's nodes are strings, and the model's Maps and stores
  are keyed by strings: \<open>idOf\<close> and \<open>typeOf\<close> read \<open>o.id\<close> and \<open>o.type\<close>, and read
  a value that is no string as the empty one.
\<close>

definition idOf :: "obj \<Rightarrow> string" where
  "idOf ob = (case field ob ''id'' of JStr i \<Rightarrow> i | v \<Rightarrow> [])"

definition typeOf :: "obj \<Rightarrow> string" where
  "typeOf ob = (case field ob ''type'' of JStr t \<Rightarrow> t | v \<Rightarrow> [])"

text \<open>
  The default states: each of the three is written only when \<open>getProperty\<close> returns
  \<open>undefined\<close> for it.
\<close>

definition seedDefault :: "string \<Rightarrow> string \<Rightarrow> jsval \<Rightarrow> (string \<times> obj) list \<Rightarrow> (string \<times> obj) list" where
  "seedDefault wid prop v store =
     (if statestore_getProperty store wid prop = JUndefined
      then statestore_set store wid prop v else store)"

definition seedDefaults :: "string \<Rightarrow> (string \<times> obj) list \<Rightarrow> (string \<times> obj) list" where
  "seedDefaults wid store =
     seedDefault wid ''class'' (JStr [])
       (seedDefault wid ''visible'' (JBool True)
          (seedDefault wid ''enabled'' (JBool True) store))"

text \<open>
  \<open>widget.props\<close> is \<open>widgetConfig\<close> with the subflow descriptor added, the editor's own
  properties deleted and a width or height of \<open>'0'\<close> replaced by \<open>null\<close>. The values of the
  model hold no functions, so the loop that turns function properties into strings has
  nothing to do; a configuration is taken to have no \<open>methods\<close> property that is \<open>null\<close>,
  the one input on which that loop throws.
\<close>

definition zeroToNull :: "string \<Rightarrow> obj \<Rightarrow> obj" where
  "zeroToNull k ob = (if field ob k = JStr ''0'' then AList.update k JNull ob else ob)"

definition widgetProps :: "env \<Rightarrow> obj \<Rightarrow> obj" where
  "widgetProps e widgetConfig =
     (let withSubflow =
            (case subflowOf e (field widgetConfig ''z'') of
               None \<Rightarrow> widgetConfig
             | Some sf \<Rightarrow> AList.update ''subflow'' sf widgetConfig);
          stripped =
            AList.delete ''wires'' (AList.delete ''y'' (AList.delete ''x''
              (AList.delete ''type'' (AList.delete ''id'' withSubflow))))
      in zeroToNull ''height'' (zeroToNull ''width'' stripped))"

definition buildWidget :: "env \<Rightarrow> (string \<times> obj) list \<Rightarrow> obj \<Rightarrow> hooks option \<Rightarrow> widget" where
  "buildWidget e store widgetConfig widgetEvents =
     \<lparr>w_id = idOf widgetConfig,
      w_type = typeOf widgetConfig,
      w_props = widgetProps e widgetConfig,
      w_layout =
        [(''width'', jsOr (field widgetConfig ''width'') (JNum (Finite 3))),
         (''height'', jsOr (field widgetConfig ''height'') (JNum (Finite 1))),
         (''order'', jsOr (field widgetConfig ''order'') (JNum (Finite 0)))],
      w_state = (case statestore_getAll store (idOf widgetConfig) of None \<Rightarrow> [] | Some st \<Rightarrow> st),
      w_hooks = widgetEvents,
      w_src = field (contribs e) (typeOf widgetConfig),
      w_onSocketHandlers = False\<rparr>"

text \<open>\<open>registerTheme\<close>: the theme node without the runtime's bookkeeping properties.\<close>

definition registerTheme :: "rednode \<Rightarrow> (string \<times> obj) list \<Rightarrow> (string \<times> obj) list" where
  "registerTheme theme ths =
     AList.update (n_id theme)
       (AList.delete ''type'' (AList.delete ''wires'' (AList.delete ''_closeCallbacks''
          (AList.delete ''_inputCallbacks'' (AList.delete ''_inputCallback''
             (AList.delete ''_wireCount'' (n_props theme)))))))
       ths"

definition has :: "(string \<times> 'a) list \<Rightarrow> string \<Rightarrow> bool" where
  "has m k = (map_of m k \<noteq> None)"

definition registerThemeOf :: "env \<Rightarrow> obj \<Rightarrow> (string \<times> obj) list \<Rightarrow> (string \<times> obj) list" where
  "registerThemeOf e page ths =
     (case field page ''theme'' of
        JStr t \<Rightarrow>
          (if field page ''type'' = JStr ''ui-page'' \<and> \<not> has ths t
           then (case getNode e t of None \<Rightarrow> ths | Some theme \<Rightarrow> registerTheme theme ths)
           else ths)
      | _ \<Rightarrow> ths)"

text \<open>
  \<open>node.register(page, group, widgetNode, widgetConfig, widgetEvents)\<close>; an absent argument
  is \<open>None\<close>. \<open>widget.props\<close> is set to \<open>widgetConfig\<close> itself, not to a copy, so the
  deletions and replacements of \<open>widgetProps\<close> are made in the caller's object; the
  \<open>input\<close> listener that \<open>widgetNode.on\<close> attaches closes over that same object and
  reads it on every message (\<open>widgetConfig.topic\<close>, \<open>widgetConfig.passthru\<close>). What the
  listeners do when a message arrives is no part of the call's own effect.
\<close>

definition register ::
  "env \<Rightarrow> obj option \<Rightarrow> obj option \<Rightarrow> rednode option \<Rightarrow> obj option \<Rightarrow> hooks option \<Rightarrow> base \<Rightarrow> base"
where
  "register e page grp widgetNode widgetConfig widgetEvents s =
     (let store =
            (case (widgetNode, widgetConfig) of
               (Some wn, Some cfg) \<Rightarrow> seedDefaults (idOf cfg) (statestore s)
             | _ \<Rightarrow> statestore s);
          widget =
            (case (widgetNode, widgetConfig) of
               (Some wn, Some cfg) \<Rightarrow> Some (buildWidget e store cfg widgetEvents)
             | _ \<Rightarrow> None);
          u = ui s;
          ds = (if has (dashboards u) (baseId e) then dashboards u
                else AList.update (baseId e) (baseConfig e) (dashboards u));
          ths = (case page of None \<Rightarrow> themes u | Some p \<Rightarrow> registerThemeOf e p (themes u));
          ps = (case page of
                  None \<Rightarrow> pages u
                | Some p \<Rightarrow> AList.update (idOf p) (AList.delete ''_users'' p) (pages u));
          gs = (case grp of
                  None \<Rightarrow> groups u
                | Some g \<Rightarrow>
                    AList.update (idOf g) (AList.delete ''type'' (AList.delete ''_user'' g)) (groups u));
          ws = (case widget of
                  None \<Rightarrow> widgets u
                | Some w \<Rightarrow>
                    if has (widgets u) (w_id w) then widgets u
                    else AList.update (w_id w) w (widgets u));
          ls = (case widgetNode of
                  None \<Rightarrow> inputListeners s
                | Some wn \<Rightarrow>
                    inputListeners s @ [(n_id wn, map_option (widgetProps e) widgetConfig)])
      in requestEmitConfig
           (s\<lparr>statestore := store,
              ui := u\<lparr>dashboards := ds, themes := ths, pages := ps, groups := gs, widgets := ws\<rparr>,
              inputListeners := ls\<rparr>))"

subsection \<open>deregister\<close>

text \<open>
  \<open>[...node.ui.widgets]\<close> and \<open>[...node.ui.groups]\<close> spread a Map into the array of its
  entries, each the two-element array \<open>[key, value]\<close>. The filters read \<open>w.props?.group\<close>
  and \<open>g.page\<close> on such an entry, not on the value in it: an array has neither property,
  so both are \<open>undefined\<close> whatever the entry holds.
\<close>

definition entryProp :: "string \<times> 'a \<Rightarrow> string \<Rightarrow> jsval" where
  "entryProp entry k = JUndefined"

text \<open>
  The widget's custom socket events: for every connection and every event name,
  \<open>socket.off\<close> is called when the widget has \<open>_onSocketHandlers\<close>.
\<close>

definition releaseSocketHooks :: "widget \<Rightarrow> base \<Rightarrow> base" where
  "releaseSocketHooks w s =
     (case w_hooks w of
        None \<Rightarrow> s
      | Some h \<Rightarrow>
          (case hk_onSocket h of
             None \<Rightarrow> s
           | Some eventNames \<Rightarrow>
               if w_onSocketHandlers w
               then s\<lparr>offCalls := offCalls s @
                      concat (map (\<lambda>(sid, sock). map (\<lambda>eventName. (sid, eventName)) eventNames)
                                  (connections s))\<rparr>
               else s))"

definition setWidgets :: "(string \<times> widget) list \<Rightarrow> base \<Rightarrow> base" where
  "setWidgets ws s = s\<lparr>ui := (ui s)\<lparr>widgets := ws\<rparr>\<rparr>"

definition setGroups :: "(string \<times> obj) list \<Rightarrow> base \<Rightarrow> base" where
  "setGroups gs s = s\<lparr>ui := (ui s)\<lparr>groups := gs\<rparr>\<rparr>"

definition setPages :: "(string \<times> obj) list \<Rightarrow> base \<Rightarrow> base" where
  "setPages ps s = s\<lparr>ui := (ui s)\<lparr>pages := ps\<rparr>\<rparr>"

text \<open>The three steps of \<open>deregister\<close>; each returns the state and whether it changed anything.\<close>

definition removeWidget :: "rednode option \<Rightarrow> base \<Rightarrow> error + base \<times> bool" where
  "removeWidget widgetNode s =
     (case widgetNode of
        None \<Rightarrow> Inr (s, False)
      | Some wn \<Rightarrow>
          (case map_of (widgets (ui s)) (n_id wn) of
             None \<Rightarrow> Inl TypeError
           | Some w \<Rightarrow>
               (let s1 = releaseSocketHooks w s
                in Inr (setWidgets (AList.delete (n_id wn) (widgets (ui s1))) s1, True))))"

definition removeGroup :: "obj option \<Rightarrow> base \<times> bool \<Rightarrow> base \<times> bool" where
  "removeGroup grp sc =
     (case grp of
        None \<Rightarrow> sc
      | Some g \<Rightarrow>
          if length (filter (\<lambda>w. optChain (entryProp w ''props'') ''group'' = field g ''id'')
                       (widgets (ui (fst sc)))) = 0
          then (setGroups (AList.delete (idOf g) (groups (ui (fst sc)))) (fst sc), True)
          else sc)"

definition removePage :: "obj option \<Rightarrow> base \<times> bool \<Rightarrow> base \<times> bool" where
  "removePage page sc =
     (case page of
        None \<Rightarrow> sc
      | Some p \<Rightarrow>
          if length (filter (\<lambda>g. entryProp g ''page'' = field p ''id'') (groups (ui (fst sc)))) = 0
          then (setPages (AList.delete (idOf p) (pages (ui (fst sc)))) (fst sc), True)
          else sc)"

definition deregister :: "obj option \<Rightarrow> obj option \<Rightarrow> rednode option \<Rightarrow> base \<Rightarrow> error + base" where
  "deregister page grp widgetNode s =
     (case removeWidget widgetNode s of
        Inl e \<Rightarrow> Inl e
      | Inr sc \<Rightarrow>
          (let sc' = removePage page (removeGroup grp sc)
           in Inr (if snd sc' then requestEmitConfig (fst sc') else fst sc')))"

subsection \<open>onAction\<close>

text \<open>\<open>typeof msg === 'object'\<close>\<close>

fun isObject :: "jsval \<Rightarrow> bool" where
  "isObject JNull = True"
| "isObject (JArr xs) = True"
| "isObject (JObj kvs) = True"
| "isObject v = False"

text \<open>The plugins' \<open>onAction\<close> hooks, in order; a hook runs only while the message is truthy.\<close>

definition runActionHooks :: "plugin list \<Rightarrow> socket \<Rightarrow> string \<Rightarrow> jsval \<Rightarrow> jsval" where
  "runActionHooks ps conn wid msg =
     foldl (\<lambda>m p. case onActionHook p of
                     None \<Rightarrow> m
                   | Some hook \<Rightarrow> if truthy m then hook conn wid m else m)
           msg ps"

text \<open>
  The handler of the \<open>catch\<close>: the widget's \<open>onError\<close> hook, else the widget node's
  \<open>error\<close>, else the base node's.
\<close>

definition reportError :: "hooks \<Rightarrow> rednode \<Rightarrow> error \<Rightarrow> base \<Rightarrow> base" where
  "reportError widgetEvents wNode err s =
     s\<lparr>errors := errors s @
          [(if hk_onError widgetEvents then WidgetOnError
            else if n_hasError wNode then WidgetNodeError else BaseNodeError, err)]\<rparr>"

definition sendOn :: "rednode \<Rightarrow> jsval \<Rightarrow> base \<Rightarrow> base" where
  "sendOn wNode msg s = s\<lparr>sent := sent s @ [(n_id wNode, msg)]\<rparr>"

text \<open>
  \<open>getWidgetAndConfig(id)\<close>: the runtime's node, and the registry's widget with its
  \<open>props\<close> and \<open>hooks\<close>, each \<open>{}\<close> when the widget or the property is missing.
\<close>

definition getWidgetAndConfig :: "env \<Rightarrow> base \<Rightarrow> string \<Rightarrow> rednode option \<times> obj \<times> hooks \<times> widget option" where
  "getWidgetAndConfig e s wid =
     (let widget = map_of (widgets (ui s)) wid
      in (getNode e wid,
          (case widget of None \<Rightarrow> [] | Some w \<Rightarrow> w_props w),
          (case widget of
             None \<Rightarrow> noHooks
           | Some w \<Rightarrow> (case w_hooks w of None \<Rightarrow> noHooks | Some h \<Rightarrow> h)),
          widget))"

text \<open>
  The message after the connection's credentials are added; anything that is not an
  object becomes the payload of a new message.
\<close>

definition actionMessage :: "env \<Rightarrow> socket \<Rightarrow> jsval \<Rightarrow> jsval" where
  "actionMessage e conn msg =
     (let msg2 = addConnectionCredentials e conn msg
      in if \<not> truthy msg2 \<or> \<not> isObject msg2 then JObj [(''payload'', msg2)] else msg2)"

definition onAction :: "env \<Rightarrow> socket \<Rightarrow> string \<Rightarrow> jsval \<Rightarrow> base \<Rightarrow> base" where
  "onAction e conn wid msg0 s =
     (let msg1 = runActionHooks (plugins e) conn wid msg0
      in if \<not> truthy msg1 then s
         else
           (let msg3 = actionMessage e conn msg1
            in case getWidgetAndConfig e s wid of
                 (None, widgetConfig, widgetEvents, widget) \<Rightarrow> s
               | (Some wNode, widgetConfig, widgetEvents, widget) \<Rightarrow>
                   if \<not> hk_onAction widgetEvents then s
                   else
                     (case appendTopic e widgetConfig wNode msg3 of
                        Inl err \<Rightarrow> reportError widgetEvents wNode err s
                      | Inr msg4 \<Rightarrow>
                          (case hk_beforeSend widgetEvents of
                             None \<Rightarrow> sendOn wNode msg4 s
                           | Some beforeSend \<Rightarrow>
                               (case beforeSend msg4 of
                                  Inl err \<Rightarrow> reportError widgetEvents wNode err s
                                | Inr msg5 \<Rightarrow> sendOn wNode msg5 s)))))"


section \<open>Notions the statements use\<close>

text \<open>
  A value that converts to a property key, and the key; the key under which \<open>lineCounts\<close>
  counts an entry, and under which \<open>seen\<close> records it.
\<close>

definition keyable :: "runtime \<Rightarrow> jsval \<Rightarrow> bool" where
  "keyable rt v = (case propKey rt v of Inl e \<Rightarrow> False | Inr k \<Rightarrow> True)"

definition keyOf :: "runtime \<Rightarrow> jsval \<Rightarrow> string" where
  "keyOf rt v = (case propKey rt v of Inl e \<Rightarrow> [] | Inr k \<Rightarrow> k)"

definition labelKey :: "runtime \<Rightarrow> obj \<Rightarrow> string" where
  "labelKey rt m = keyOf rt (field m ''topic'')"

definition categoryKey :: "runtime \<Rightarrow> obj \<Rightarrow> string" where
  "categoryKey rt m = (case datapointCategory m of Inl e \<Rightarrow> [] | Inr series \<Rightarrow> keyOf rt series)"

text \<open>
  An entry whose topic converts to a key; one whose category can be read (its
  \<open>_datapoint\<close> is neither \<open>undefined\<close> nor \<open>null\<close>) and converts to a key; one whose \<open>x\<close>
  can be read and compared with a number.
\<close>

definition labelled :: "runtime \<Rightarrow> obj \<Rightarrow> bool" where
  "labelled rt m = keyable rt (field m ''topic'')"

definition categorised :: "runtime \<Rightarrow> obj \<Rightarrow> bool" where
  "categorised rt m = (case datapointCategory m of Inl e \<Rightarrow> False | Inr series \<Rightarrow> keyable rt series)"

definition comparable :: "runtime \<Rightarrow> obj \<Rightarrow> bool" where
  "comparable rt m =
     (case datapointX m of
        Inl e \<Rightarrow> False
      | Inr xv \<Rightarrow> (case timestamp rt xv of Inl e \<Rightarrow> False | Inr t \<Rightarrow> True))"

text \<open>The time filter's predicate on an entry.\<close>

definition isNewer :: "runtime \<Rightarrow> number \<Rightarrow> obj \<Rightarrow> bool" where
  "isNewer rt cutoff m =
     (case datapointX m of
        Inl e \<Rightarrow> False
      | Inr xv \<Rightarrow> (case timestamp rt xv of Inl e \<Rightarrow> False | Inr t \<Rightarrow> greater t cutoff))"

text \<open>Whether the time window and the count window apply: the guards in \<open>onInput\<close>.\<close>

definition timeWindowed :: "chartConfig \<Rightarrow> bool" where
  "timeWindowed config =
     (xAxisType config = ''time'' \<and> knobTruthy (removeOlder config)
        \<and> knobTruthy (removeOlderUnit config))"

definition countWindowed :: "chartConfig \<Rightarrow> bool" where
  "countWindowed config =
     (numTruthy (knobNumber (removeOlderPoints config)) \<and> knobTruthy (removeOlderPoints config))"

text \<open>
  The reference for the category filter: an entry stays when no later entry has its key.
  \<open>isLatest\<close> says the same of an index.
\<close>

fun latestOfEach :: "('a \<Rightarrow> 'k) \<Rightarrow> 'a list \<Rightarrow> 'a list" where
  "latestOfEach key [] = []"
| "latestOfEach key (m # ms) =
     (if key m \<in> key ` set ms then latestOfEach key ms else m # latestOfEach key ms)"

definition isLatest :: "('a \<Rightarrow> 'k) \<Rightarrow> 'a list \<Rightarrow> nat \<Rightarrow> bool" where
  "isLatest key h j =
     (j < length h \<and> (\<forall>j'. j < j' \<and> j' < length h \<longrightarrow> key (h ! j') \<noteq> key (h ! j)))"

definition seenOf :: "runtime \<Rightarrow> obj list \<Rightarrow> (string \<times> nat) list" where
  "seenOf rt h = foldl (\<lambda>seen (j, m). tableSet (categoryKey rt m) j seen) [] (enumerate 0 h)"

text \<open>
  What an append adds to the history: the message itself, or one entry for each element of
  an array payload. A message is \<open>cloneable\<close> when no element of its array is
  \<open>undefined\<close>, the one value the JSON clone rejects.
\<close>

definition arrayEntry :: "obj \<Rightarrow> nat \<Rightarrow> jsval \<Rightarrow> obj" where
  "arrayEntry msg i p =
     AList.update ''_datapoint''
       (if truthy (field msg ''_datapoint'') then getIndex (field msg ''_datapoint'') i else JNull)
       (AList.update ''payload'' (jsonValue p) msg)"

definition newEntries :: "obj \<Rightarrow> obj list" where
  "newEntries msg =
     (case field msg ''payload'' of
        JArr ps \<Rightarrow> map (\<lambda>(i, p). arrayEntry msg i p) (enumerate 0 ps)
      | _ \<Rightarrow> [msg])"

definition cloneable :: "obj \<Rightarrow> bool" where
  "cloneable msg = (case field msg ''payload'' of JArr ps \<Rightarrow> JUndefined \<notin> set ps | _ \<Rightarrow> True)"

text \<open>
  The history the count step leaves on an axis that is not categorical: the history
  itself when no count window applies.
\<close>

definition afterCountWindow :: "runtime \<Rightarrow> chartConfig \<Rightarrow> obj list \<Rightarrow> obj list" where
  "afterCountWindow rt config h =
     (if countWindowed config then
        (case latestPerLabel rt (knobNumber (removeOlderPoints config)) h of
           Inl e \<Rightarrow> []
         | Inr kept \<Rightarrow> kept)
      else h)"

section \<open>Example inputs\<close>

text \<open>
  Concrete inputs for the closed theorems below: a runtime whose parsers recognise
  nothing and whose arithmetic on finite numbers is exact, chart configurations for each
  eviction policy, and a message with a topic and a data point.
\<close>

definition exactTimes :: "number \<Rightarrow> number \<Rightarrow> number" where
  "exactTimes a b = (case (a, b) of (Finite x, Finite y) \<Rightarrow> Finite (x * y) | _ \<Rightarrow> NaN)"

definition exactMinus :: "number \<Rightarrow> number \<Rightarrow> number" where
  "exactMinus a b = (case (a, b) of (Finite x, Finite y) \<Rightarrow> Finite (x - y) | _ \<Rightarrow> NaN)"

definition rt0 :: runtime where
  "rt0 = \<lparr>dateParse = (\<lambda>s. NaN), stringToNumber = (\<lambda>s. NaN), numberToString = (\<lambda>q. []),
           multiply = exactTimes, subtract = exactMinus\<rparr>"

definition chartConfig0 :: chartConfig where
  "chartConfig0 = \<lparr>action = ''append'', xAxisType = ''category'', removeOlderPoints = Blank,
                    removeOlder = Blank, removeOlderUnit = Blank\<rparr>"

definition point :: "string \<Rightarrow> jsval \<Rightarrow> rat \<Rightarrow> rat \<Rightarrow> obj" where
  "point label cat xv yv =
     [(''topic'', JStr label), (''payload'', JNum (Finite yv)),
      (''_datapoint'',
       JObj [(''category'', cat), (''x'', JNum (Finite xv)), (''y'', JNum (Finite yv))])]"

definition chartConfig1 :: chartConfig where
  "chartConfig1 = \<lparr>action = ''append'', xAxisType = ''time'', removeOlderPoints = Parsed (Finite 1),
                    removeOlder = Blank, removeOlderUnit = Blank\<rparr>"

definition chartConfig2 :: chartConfig where
  "chartConfig2 = \<lparr>action = ''append'', xAxisType = ''time'', removeOlderPoints = Blank,
                    removeOlder = Parsed (Finite 1), removeOlderUnit = Parsed (Finite 60)\<rparr>"

definition chartConfig3 :: chartConfig where
  "chartConfig3 = \<lparr>action = ''append'', xAxisType = ''time'', removeOlderPoints = Blank,
                    removeOlder = Parsed (Finite (3 / 2)), removeOlderUnit = Parsed (Finite 60)\<rparr>"

text \<open>
  For the base node: two sockets, an empty base node with both connected, a runtime
  that knows the nodes \<open>w1\<close> and \<open>w2\<close> and has no plugins, a page, a group and the
  configuration of a button in that group.
\<close>

definition socketA :: socket where "socketA = \<lparr>sock_id = ''a''\<rparr>"

definition socketB :: socket where "socketB = \<lparr>sock_id = ''b''\<rparr>"

definition base0 :: base where
  "base0 = \<lparr>ui = \<lparr>heads = [], dashboards = [], pages = [], themes = [], groups = [], widgets = []\<rparr>,
            statestore = [], connections = [(''a'', socketA), (''b'', socketB)],
            emitConfigRequested = None, clock = 0, emitted = [], offCalls = [], sent = [],
            errors = [], inputListeners = []\<rparr>"

definition env0 :: env where
  "env0 = \<lparr>baseId = ''base'', baseConfig = [(''id'', JStr ''base'')], acceptsClientConfig = None,
           plugins = [],
           getNode = (\<lambda>i. if i = ''w1'' \<or> i = ''w2''
                            then Some \<lparr>n_id = i, n_type = ''ui-button'', n_props = [], n_hasError = True\<rparr>
                            else None),
           subflowOf = (\<lambda>v. None), contribs = [],
           addConnectionCredentials = (\<lambda>conn msg. msg),
           appendTopic = (\<lambda>widgetConfig wNode msg. Inr msg)\<rparr>"

definition node0 :: "string \<Rightarrow> string \<Rightarrow> rednode" where
  "node0 i t = \<lparr>n_id = i, n_type = t, n_props = [], n_hasError = True\<rparr>"

definition msgTo :: "string \<Rightarrow> obj" where
  "msgTo sid = [(''payload'', JNum (Finite 1)), (''_client'', JObj [(''socketId'', JStr sid)])]"

definition page1 :: obj where
  "page1 = [(''id'', JStr ''p1''), (''type'', JStr ''ui-page''), (''name'', JStr ''Home'')]"

definition group1 :: obj where
  "group1 = [(''id'', JStr ''g1''), (''type'', JStr ''ui-group''), (''page'', JStr ''p1'')]"

definition buttonConfig :: "string \<Rightarrow> obj" where
  "buttonConfig i =
     [(''id'', JStr i), (''type'', JStr ''ui-button''), (''group'', JStr ''g1''),
      (''label'', JStr ''press''), (''x'', JNum (Finite 120)), (''y'', JNum (Finite 80))]"

definition actionHooks :: hooks where
  "actionHooks = \<lparr>hk_onAction = True, hk_beforeSend = None, hk_onError = False, hk_onSocket = None\<rparr>"

text \<open>Two buttons of one group on one page: the first registers an \<open>onAction\<close> hook, the second no hooks.\<close>

definition base2 :: base where
  "base2 =
     register env0 (Some page1) (Some group1) (Some (node0 ''w2'' ''ui-button''))
       (Some (buttonConfig ''w2'')) None
       (register env0 (Some page1) (Some group1) (Some (node0 ''w1'' ''ui-button''))
          (Some (buttonConfig ''w1'')) (Some actionHooks) base0)"

definition base3 :: base where
  "base3 = base2\<lparr>statestore :=
             statestore_set (statestore_set (statestore base2) ''w1'' ''label'' (JStr ''dynamic''))
               ''p1'' ''name'' (JStr ''Renamed'')\<rparr>"

section \<open>The chart's history: proofs\<close>

subsection \<open>The count window\<close>

lemma trawl_subseq: "trawl rt n c xs = Inr kept \<Longrightarrow> subseq kept xs"
proof (induction xs arbitrary: c kept)
  case Nil
  then show ?case by simp
next
  case (Cons m older)
  then show ?case
    by (auto simp add: Let_def split: sum.splits if_splits)
qed

lemma trawl_total: "\<forall>m \<in> set xs. labelled rt m \<Longrightarrow> \<exists>kept. trawl rt n c xs = Inr kept"
proof (induction xs arbitrary: c)
  case Nil
  then show ?case by simp
next
  case (Cons m older)
  from Cons.prems obtain label where label: "propKey rt (field m ''topic'') = Inr label"
    by (auto simp: labelled_def keyable_def split: sum.splits)
  from Cons.prems have rest: "\<exists>kept. trawl rt n c' older = Inr kept" for c'
    by (intro Cons.IH) simp
  show ?case
  proof (cases "numAtLeast (slotNumber (tableGet (tableSet label (orZero (tableGet c label)) c) label)) n")
    case True
    with label rest show ?thesis by (simp add: Let_def)
  next
    case False
    let ?c' = "tableSet label
                 (Held (increment (slotNumber (tableGet (tableSet label (orZero (tableGet c label)) c) label))))
                 (tableSet label (orZero (tableGet c label)) c)"
    from rest [of ?c'] obtain kept where "trawl rt n ?c' older = Inr kept" ..
    with label False show ?thesis by (simp add: Let_def)
  qed
qed

lemma subseq_rev_mono: "subseq xs ys \<Longrightarrow> subseq (rev xs) (rev ys)"
proof (induction rule: list_emb.induct)
  case (list_emb_Nil ys)
  then show ?case by simp
next
  case (list_emb_Cons xs ys y)
  then show ?case by (simp add: subseq_rev_drop_many)
next
  case (list_emb_Cons2 x y xs ys)
  then show ?case by (simp add: list_emb_append_mono)
qed

lemma latestPerLabel_subseq: "latestPerLabel rt n h = Inr kept \<Longrightarrow> subseq kept h"
proof -
  assume "latestPerLabel rt n h = Inr kept"
  then obtain k where k: "trawl rt n [] (rev h) = Inr k" and kept: "kept = rev k"
    by (auto simp: latestPerLabel_def split: sum.splits)
  from subseq_rev_mono [OF trawl_subseq [OF k]] kept show ?thesis by simp
qed

lemma latestPerLabel_total:
  "\<forall>m \<in> set h. labelled rt m \<Longrightarrow> \<exists>kept. latestPerLabel rt n h = Inr kept"
  using trawl_total [of "rev h" rt n "[]"] by (auto simp: latestPerLabel_def)

lemma afterCountWindow_subseq: "subseq (afterCountWindow rt config h) h"
  by (auto simp: afterCountWindow_def latestPerLabel_subseq split: sum.splits)

lemma tableGet_counted:
  assumes "k \<noteq> ''__proto__''" and "k \<notin> set objectPrototype"
    and "map_of c k = None \<and> j = 0 \<or> map_of c k = Some (Held (Finite (of_nat j)))"
  shows "orZero (tableGet c k) = Held (Finite (of_nat j))"
  using assms by (auto simp: tableGet_def)

lemma tableSet_lookup:
  "k \<noteq> ''__proto__'' \<Longrightarrow> map_of (tableSet k v c) k' = (if k' = k then Some v else map_of c k')"
  by (simp add: tableSet_def update_conv')

lemma tableSet_other: "k' \<noteq> k \<Longrightarrow> map_of (tableSet k v c) k' = map_of c k'"
  by (simp add: tableSet_def update_conv')

lemma trawl_filter_key:
  assumes "k \<noteq> ''__proto__''" and "k \<notin> set objectPrototype"
    and "\<forall>m \<in> set xs. labelled rt m"
    and "map_of c k = None \<and> j = 0 \<or> map_of c k = Some (Held (Finite (of_nat j)))"
  shows "\<exists>kept. trawl rt (Finite (of_int n)) c xs = Inr kept
           \<and> filter (\<lambda>m. labelKey rt m = k) kept
               = take (nat (n - int j)) (filter (\<lambda>m. labelKey rt m = k) xs)"
  using assms(3,4)
proof (induction xs arbitrary: c j)
  case Nil
  then show ?case by simp
next
  case (Cons m older)
  from Cons.prems(1) obtain label where label: "propKey rt (field m ''topic'') = Inr label"
    by (auto simp: labelled_def keyable_def split: sum.splits)
  then have key: "labelKey rt m = label"
    by (simp add: labelKey_def keyOf_def)
  from Cons.prems(1) have rest: "\<forall>m \<in> set older. labelled rt m"
    by simp
  let ?counts = "tableSet label (orZero (tableGet c label)) c"
  let ?n = "slotNumber (tableGet ?counts label)"
  show ?case
  proof (cases "label = k")
    case True
    have held: "orZero (tableGet c k) = Held (Finite (of_nat j))"
      using assms(1,2) Cons.prems(2) by (rule tableGet_counted)
    have counts: "map_of ?counts k = Some (Held (Finite (of_nat j)))"
      using True assms(1) held by (simp add: tableSet_lookup)
    then have n: "?n = Finite (of_nat j)"
      using True assms(1) by (simp add: tableGet_def)
    show ?thesis
    proof (cases "n \<le> int j")
      case full: True
      then have "numAtLeast ?n (Finite (of_int n))"
        by (simp add: n numAtLeast_def)
      moreover from Cons.IH [OF rest, of ?counts j] counts
      obtain kept where "trawl rt (Finite (of_int n)) ?counts older = Inr kept"
        and "filter (\<lambda>m. labelKey rt m = k) kept
               = take (nat (n - int j)) (filter (\<lambda>m. labelKey rt m = k) older)"
        by auto
      ultimately show ?thesis
        using label full by (simp add: Let_def)
    next
      case room: False
      then have cmp: "\<not> numAtLeast ?n (Finite (of_int n))"
        by (simp add: n numAtLeast_def)
      let ?next = "tableSet label (Held (increment ?n)) ?counts"
      have "increment ?n = Finite (of_nat (Suc j))"
        by (simp add: n)
      then have "map_of ?next k = Some (Held (Finite (of_nat (Suc j))))"
        using True assms(1) by (simp add: tableSet_lookup)
      with Cons.IH [OF rest, of ?next "Suc j"]
      obtain kept where kept: "trawl rt (Finite (of_int n)) ?next older = Inr kept"
        and IH: "filter (\<lambda>m. labelKey rt m = k) kept
               = take (nat (n - int (Suc j))) (filter (\<lambda>m. labelKey rt m = k) older)"
        by auto
      from room have "nat (n - int j) = Suc (nat (n - int (Suc j)))"
        by simp
      then have "take (nat (n - int j)) (m # ys) = m # take (nat (n - int (Suc j))) ys" for ys
        by simp
      with label cmp kept IH key True show ?thesis
        by (simp add: Let_def)
    qed
  next
    case False
    have same: "map_of (tableSet label v c') k = map_of c' k" for v :: slot and c'
      using False by (simp add: tableSet_other)
    from Cons.prems(2) have inv: "map_of ?counts k = None \<and> j = 0
                                   \<or> map_of ?counts k = Some (Held (Finite (of_nat j)))"
      by (simp add: same)
    show ?thesis
    proof (cases "numAtLeast ?n (Finite (of_int n))")
      case True
      with Cons.IH [OF rest inv] label key False show ?thesis
        by (auto simp: Let_def)
    next
      case cmp: False
      let ?next = "tableSet label (Held (increment ?n)) ?counts"
      from inv have "map_of ?next k = None \<and> j = 0 \<or> map_of ?next k = Some (Held (Finite (of_nat j)))"
        by (simp add: same)
      from Cons.IH [OF rest this] label key False cmp show ?thesis
        by (auto simp: Let_def)
    qed
  qed
qed

text \<open>
  For a topic whose key is no property name of \<open>Object.prototype\<close> the count window does
  what its comment says: of the entries with that key exactly the last \<open>n\<close> stay.
\<close>

lemma latestPerLabel_ordinary_key:
  assumes "k \<noteq> ''__proto__''" and "k \<notin> set objectPrototype"
    and "\<forall>m \<in> set h. labelled rt m"
  shows "\<exists>kept. latestPerLabel rt (Finite (of_int n)) h = Inr kept
           \<and> filter (\<lambda>m. labelKey rt m = k) kept
               = drop (length (filter (\<lambda>m. labelKey rt m = k) h) - nat n)
                   (filter (\<lambda>m. labelKey rt m = k) h)"
proof -
  from assms(3) have "\<forall>m \<in> set (rev h). labelled rt m"
    by simp
  from trawl_filter_key [OF assms(1,2) this, of "[]" 0 n]
  obtain kept where kept: "trawl rt (Finite (of_int n)) [] (rev h) = Inr kept"
    and eq: "filter (\<lambda>m. labelKey rt m = k) kept
               = take (nat n) (filter (\<lambda>m. labelKey rt m = k) (rev h))"
    by auto
  have "filter (\<lambda>m. labelKey rt m = k) (rev kept) = rev (filter (\<lambda>m. labelKey rt m = k) kept)"
    by (simp add: rev_filter)
  also have "\<dots> = rev (take (nat n) (filter (\<lambda>m. labelKey rt m = k) (rev h)))"
    by (simp only: eq)
  also have "\<dots> = rev (take (nat n) (rev (filter (\<lambda>m. labelKey rt m = k) h)))"
    by (simp add: rev_filter)
  also have "\<dots> = drop (length (filter (\<lambda>m. labelKey rt m = k) h) - nat n)
                      (filter (\<lambda>m. labelKey rt m = k) h)"
    by (simp add: rev_take)
  finally show ?thesis
    using kept by (simp add: latestPerLabel_def)
qed

subsection \<open>The category filter\<close>

lemma categorised_key:
  "categorised rt m \<Longrightarrow>
   \<exists>series. datapointCategory m = Inr series \<and> propKey rt series = Inr (categoryKey rt m)"
  by (auto simp: categorised_def categoryKey_def keyable_def keyOf_def split: sum.splits)

lemma recordSeen_fold:
  "\<forall>m \<in> set h. categorised rt m \<Longrightarrow>
   recordSeen rt seen i h
     = Inr (foldl (\<lambda>s (j, m). tableSet (categoryKey rt m) j s) seen (enumerate i h))"
proof (induction h arbitrary: seen i)
  case Nil
  then show ?case by simp
next
  case (Cons m ms)
  from Cons.prems obtain series where "datapointCategory m = Inr series"
    and "propKey rt series = Inr (categoryKey rt m)"
    using categorised_key [of rt m] by auto
  with Cons show ?case by simp
qed

lemma seenOf_snoc:
  "seenOf rt (h @ [m]) = tableSet (categoryKey rt m) (length h) (seenOf rt h)"
  by (simp add: seenOf_def enumerate_append_eq)

lemma seenOf_distinct: "distinct (map fst (seenOf rt h))"
proof (induction h rule: rev_induct)
  case Nil
  then show ?case by (simp add: seenOf_def)
next
  case (snoc m h)
  then show ?case by (simp add: seenOf_snoc tableSet_def distinct_update)
qed

lemma isLatest_snoc_other:
  assumes "key m \<noteq> k"
  shows "isLatest key (h @ [m]) j \<and> key ((h @ [m]) ! j) = k
           \<longleftrightarrow> isLatest key h j \<and> key (h ! j) = k"
proof (cases "j < length h")
  case True
  have "(\<forall>j'. j < j' \<and> j' < Suc (length h) \<longrightarrow> key ((h @ [m]) ! j') \<noteq> key (h ! j))
          \<longleftrightarrow> (\<forall>j'. j < j' \<and> j' < length h \<longrightarrow> key (h ! j') \<noteq> key (h ! j))
               \<and> key m \<noteq> key (h ! j)"
    using True by (auto simp: nth_append less_Suc_eq)
  with True assms show ?thesis
    by (auto simp: isLatest_def nth_append)
next
  case False
  with assms show ?thesis
    by (auto simp: isLatest_def nth_append less_Suc_eq)
qed

lemma seenOf_no_proto: "map_of (seenOf rt h) ''__proto__'' = None"
proof (induction h rule: rev_induct)
  case Nil
  then show ?case by (simp add: seenOf_def)
next
  case (snoc m h)
  then show ?case by (simp add: seenOf_snoc tableSet_def update_conv')
qed

lemma seenOf_lookup:
  "map_of (seenOf rt h) k = Some j
     \<longleftrightarrow> k \<noteq> ''__proto__'' \<and> isLatest (categoryKey rt) h j \<and> categoryKey rt (h ! j) = k"
proof (cases "k = ''__proto__''")
  case True
  then show ?thesis by (simp add: seenOf_no_proto)
next
  case other: False
  have "map_of (seenOf rt h) k = Some j
          \<longleftrightarrow> isLatest (categoryKey rt) h j \<and> categoryKey rt (h ! j) = k"
  proof (induction h arbitrary: j rule: rev_induct)
    case Nil
    then show ?case by (simp add: seenOf_def isLatest_def)
  next
    case (snoc m h)
    show ?case
    proof (cases "categoryKey rt m = k")
      case True
      with other show ?thesis
        by (simp add: seenOf_snoc tableSet_def update_conv' isLatest_def nth_append) fastforce
    next
      case False
      with snoc isLatest_snoc_other [of "categoryKey rt" m k h j] show ?thesis
        by (simp add: seenOf_snoc tableSet_def update_conv')
    qed
  qed
  with other show ?thesis by simp
qed

lemma seenOf_member:
  "j \<in> set (map snd (seenOf rt h))
     \<longleftrightarrow> isLatest (categoryKey rt) h j \<and> categoryKey rt (h ! j) \<noteq> ''__proto__''"
proof -
  have "j \<in> set (map snd (seenOf rt h)) \<longleftrightarrow> (\<exists>k. (k, j) \<in> set (seenOf rt h))"
    by force
  also have "\<dots> \<longleftrightarrow> (\<exists>k. map_of (seenOf rt h) k = Some j)"
    using seenOf_distinct [of rt h] by simp
  also have "\<dots> \<longleftrightarrow> isLatest (categoryKey rt) h j \<and> categoryKey rt (h ! j) \<noteq> ''__proto__''"
    by (auto simp add: seenOf_lookup)
  finally show ?thesis .
qed

lemma all_Suc_shift:
  "(\<forall>j. a < j \<and> j < Suc n \<longrightarrow> Q j) \<longleftrightarrow> (\<forall>i. a \<le> i \<and> i < n \<longrightarrow> Q (Suc i))"
proof (intro iffI allI impI)
  fix i
  assume "\<forall>j. a < j \<and> j < Suc n \<longrightarrow> Q j" and "a \<le> i \<and> i < n"
  then show "Q (Suc i)" by simp
next
  fix j
  assume H: "\<forall>i. a \<le> i \<and> i < n \<longrightarrow> Q (Suc i)" and j: "a < j \<and> j < Suc n"
  then obtain i where "j = Suc i" by (cases j) auto
  with H j show "Q j" by simp
qed

lemma isLatest_Cons_0: "isLatest key (x # xs) 0 \<longleftrightarrow> key x \<notin> key ` set xs"
proof -
  have "isLatest key (x # xs) 0 \<longleftrightarrow> (\<forall>i < length xs. key (xs ! i) \<noteq> key x)"
    by (simp add: isLatest_def all_Suc_shift [where a = 0])
  also have "\<dots> \<longleftrightarrow> (\<forall>y \<in> set xs. key y \<noteq> key x)"
    by (simp add: all_set_conv_all_nth)
  also have "\<dots> \<longleftrightarrow> key x \<notin> key ` set xs"
    by (simp add: image_iff) metis
  finally show ?thesis .
qed

lemma isLatest_Cons_Suc: "isLatest key (x # xs) (Suc j) \<longleftrightarrow> isLatest key xs j"
  by (simp add: isLatest_def all_Suc_shift [where a = "Suc j"] Suc_le_eq)

lemma filter_enumerate_latest:
  "(\<forall>j < length xs. P (n + j) \<longleftrightarrow> isLatest key xs j \<and> Q (xs ! j)) \<Longrightarrow>
   map snd (filter (\<lambda>(index, m). P index) (enumerate n xs)) = filter Q (latestOfEach key xs)"
proof (induction xs arbitrary: n)
  case Nil
  then show ?case by simp
next
  case (Cons x xs)
  from Cons.prems [rule_format, of 0] have "P n \<longleftrightarrow> isLatest key (x # xs) 0 \<and> Q x"
    by simp
  then have head: "P n \<longleftrightarrow> key x \<notin> key ` set xs \<and> Q x"
    by (simp add: isLatest_Cons_0)
  have tail: "\<forall>j < length xs. P (Suc n + j) \<longleftrightarrow> isLatest key xs j \<and> Q (xs ! j)"
  proof (intro allI impI)
    fix j assume "j < length xs"
    then have "Suc j < length (x # xs)" by simp
    with Cons.prems have "P (n + Suc j) \<longleftrightarrow> isLatest key (x # xs) (Suc j) \<and> Q ((x # xs) ! Suc j)"
      by blast
    then show "P (Suc n + j) \<longleftrightarrow> isLatest key xs j \<and> Q (xs ! j)"
      by (simp add: isLatest_Cons_Suc)
  qed
  show ?case
    using Cons.IH [OF tail] head by auto
qed

lemma latestPerCategory_latestOfEach:
  assumes "\<forall>m \<in> set h. categorised rt m"
  shows "latestPerCategory rt h
           = Inr (filter (\<lambda>m. categoryKey rt m \<noteq> ''__proto__'') (latestOfEach (categoryKey rt) h))"
proof -
  have "recordSeen rt [] 0 h = Inr (seenOf rt h)"
    using assms by (simp add: recordSeen_fold seenOf_def)
  moreover have "keepIndices (map snd (seenOf rt h)) h
                   = filter (\<lambda>m. categoryKey rt m \<noteq> ''__proto__'') (latestOfEach (categoryKey rt) h)"
    unfolding keepIndices_def
    by (intro filter_enumerate_latest) (simp only: seenOf_member, simp)
  ultimately show ?thesis
    by (simp add: latestPerCategory_def)
qed

lemma latestOfEach_subseq: "subseq (latestOfEach key h) h"
  by (induction h) auto

lemma latestOfEach_keys: "key ` set (latestOfEach key h) = key ` set h"
  by (induction h) auto

lemma latestOfEach_filter_key:
  "filter (\<lambda>e. key e = k) (latestOfEach key h)
     = (if k \<in> key ` set h then [last (filter (\<lambda>e. key e = k) h)] else [])"
proof (induction h)
  case Nil
  then show ?case by simp
next
  case (Cons x xs)
  show ?case
  proof (cases "key x = k")
    case True
    show ?thesis
    proof (cases "k \<in> key ` set xs")
      case again: True
      then have "filter (\<lambda>e. key e = k) xs \<noteq> []"
        by (auto simp: filter_empty_conv)
      with True again Cons show ?thesis by simp
    next
      case fresh: False
      then have "filter (\<lambda>e. key e = k) xs = []"
        by (auto simp: filter_empty_conv)
      with True fresh Cons show ?thesis by simp
    qed
  next
    case False
    with Cons show ?thesis by auto
  qed
qed

subsection \<open>The time filter\<close>

lemma filterNewer_filter:
  "\<forall>m \<in> set h. comparable rt m \<Longrightarrow> filterNewer rt cutoff h = Inr (filter (isNewer rt cutoff) h)"
proof (induction h)
  case Nil
  then show ?case by simp
next
  case (Cons m ms)
  from Cons.prems obtain xv t where "datapointX m = Inr xv" and "timestamp rt xv = Inr t"
    by (auto simp: comparable_def split: sum.splits)
  with Cons show ?case by (simp add: isNewer_def)
qed

subsection \<open>The steps of onInput\<close>

lemma onInput_appended:
  assumes "\<not> isEmptyArray (field msg ''payload'')"
    and "appendPayload nodeId msg (beforeAppend config nodeId ds) = (ds', None)"
  shows "onInput rt config now nodeId msg ds =
           (case evictByCategoryOrCount rt config nodeId ds' of
              Inl e \<Rightarrow> (ds', Thrown e)
            | Inr ds4 \<Rightarrow>
                (case evictOlder rt config now nodeId ds4 of
                   Inl e \<Rightarrow> (ds4, Thrown e)
                 | Inr ds5 \<Rightarrow> (ds5, Sent)))"
  using assms by (simp add: onInput_def)

lemma datastore_save_same: "datastore_get ds nodeId = Some h \<Longrightarrow> datastore_save ds nodeId h = ds"
  by (auto simp: datastore_get_def datastore_save_def)

lemma datastore_get_save [simp]: "datastore_get (datastore_save ds nodeId h) nodeId = Some h"
  by (simp add: datastore_get_def datastore_save_def)

lemma datastore_save_save [simp]:
  "datastore_save (datastore_save ds nodeId h) nodeId h' = datastore_save ds nodeId h'"
  by (simp add: datastore_save_def)

text \<open>
  An append of a cloneable message goes through, and stores the new entries after the
  history that \<open>beforeAppend\<close> left.
\<close>

lemma appendEach_stores:
  assumes "JUndefined \<notin> set ps" and "datastore_get ds nodeId = Some old"
  shows "appendEach nodeId msg i ps ds
           = (datastore_save ds nodeId (old @ map (\<lambda>(j, p). arrayEntry msg j p) (enumerate i ps)), None)"
  using assms
proof (induction ps arbitrary: i ds old)
  case Nil
  then show ?case
    by (simp add: datastore_save_same)
next
  case (Cons p ps)
  from Cons.prems have clone: "jsonClone p = Inr (jsonValue p)"
    by (auto simp: jsonClone_def)
  let ?ds1 = "datastore_append ds nodeId (arrayEntry msg i p)"
  have get1: "datastore_get ?ds1 nodeId = Some (old @ [arrayEntry msg i p])"
    using Cons.prems by (simp add: datastore_get_def datastore_append_def)
  have step: "appendEach nodeId msg i (p # ps) ds = appendEach nodeId msg (Suc i) ps ?ds1"
    by (simp add: clone arrayEntry_def Let_def)
  have rest: "appendEach nodeId msg (Suc i) ps ?ds1
          = (datastore_save ?ds1 nodeId
               ((old @ [arrayEntry msg i p]) @ map (\<lambda>(j, p). arrayEntry msg j p) (enumerate (Suc i) ps)),
             None)"
    using Cons.prems by (intro Cons.IH get1) simp
  have over: "datastore_save ?ds1 nodeId h = datastore_save ds nodeId h" for h
    by (simp add: datastore_save_def datastore_append_def)
  show ?case
    by (simp only: step rest over) simp
qed

lemma appendPayload_stores:
  assumes "cloneable msg" and "datastore_get ds nodeId = Some old"
  shows "appendPayload nodeId msg ds = (datastore_save ds nodeId (old @ newEntries msg), None)"
proof (cases "field msg ''payload''")
  case (JArr ps)
  with assms show ?thesis
    by (simp add: appendPayload_def newEntries_def cloneable_def appendEach_stores)
qed (use assms in \<open>simp_all add: appendPayload_def newEntries_def datastore_append_def
       datastore_save_def datastore_get_def\<close>)

lemma beforeAppend_history:
  "datastore_get (beforeAppend config nodeId ds) nodeId
     = Some (if action config = ''replace'' then []
             else (case datastore_get ds nodeId of None \<Rightarrow> [] | Some old \<Rightarrow> old))"
  by (auto simp: beforeAppend_def Let_def datastore_get_def datastore_save_def)

lemma evict_count:
  assumes "xAxisType config \<noteq> ''category''" and "datastore_get ds nodeId = Some h"
    and "countWindowed config \<longrightarrow> (\<forall>m \<in> set h. labelled rt m)"
  shows "evictByCategoryOrCount rt config nodeId ds
           = Inr (datastore_save ds nodeId (afterCountWindow rt config h))"
proof (cases "countWindowed config")
  case True
  with assms(3) obtain kept
    where "latestPerLabel rt (knobNumber (removeOlderPoints config)) h = Inr kept"
    using latestPerLabel_total by blast
  with True assms(1,2) show ?thesis
    by (simp add: evictByCategoryOrCount_def afterCountWindow_def countWindowed_def Let_def)
next
  case False
  with assms(1,2) show ?thesis
    by (auto simp: evictByCategoryOrCount_def afterCountWindow_def countWindowed_def Let_def
          datastore_save_same)
qed

lemma evict_category:
  assumes "xAxisType config = ''category''" and "datastore_get ds nodeId = Some h"
    and "\<forall>m \<in> set h. categorised rt m"
  shows "evictByCategoryOrCount rt config nodeId ds
           = Inr (datastore_save ds nodeId
                    (filter (\<lambda>m. categoryKey rt m \<noteq> ''__proto__'')
                       (latestOfEach (categoryKey rt) h)))"
  using assms by (simp add: evictByCategoryOrCount_def latestPerCategory_latestOfEach)

lemma evictOlder_skipped: "\<not> timeWindowed config \<Longrightarrow> evictOlder rt config now nodeId ds = Inr ds"
  by (auto simp: evictOlder_def timeWindowed_def)

lemma evictOlder_windowed:
  assumes "timeWindowed config" and "datastore_get ds nodeId = Some h"
  shows "evictOlder rt config now nodeId ds =
           (case filterNewer rt (cutoffOf rt config now) h of
              Inl e \<Rightarrow> Inl e
            | Inr kept \<Rightarrow> Inr (datastore_save ds nodeId kept))"
  using assms by (simp add: evictOlder_def timeWindowed_def)

lemmas chart_eval =
  onInput_def beforeAppend_def appendPayload_def datastore_get_def datastore_save_def
  datastore_append_def evictByCategoryOrCount_def evictOlder_def latestPerCategory_def
  keepIndices_def latestPerLabel_def cutoffOf_def datapointCategory_def datapointX_def
  field_def timestamp_def rt0_def chartConfig0_def point_def tableSet_def tableGet_def
  objectPrototype_def exactTimes_def exactMinus_def greater_def numAtLeast_def
  intToString_def natToString.simps digitChar_def Let_def

subsection \<open>The eviction policies after an append\<close>

text \<open>
  Claim C5, as the code has it. Under the categorical axis (\<open>xAxisType = 'category'\<close>),
  after an append that went through and with a category that can be read and converted
  to a key on every stored entry, \<open>onInput\<close> reaches \<open>send\<close>, and the stored history is a
  subsequence of the appended one that holds, for every property key of a category in the
  appended history other than \<open>__proto__\<close>, exactly one entry with that key: the last
  entry of the appended history with it. The key is the category converted to a string,
  since the code indexes the object \<open>seen\<close> by it.
\<close>

theorem categorical_keeps_latest_per_key:
  assumes "xAxisType config = ''category''"
    and "\<not> isEmptyArray (field msg ''payload'')"
    and "appendPayload nodeId msg (beforeAppend config nodeId ds) = (ds', None)"
    and "datastore_get ds' nodeId = Some h"
    and "\<forall>m \<in> set h. categorised rt m"
  shows "\<exists>h'. onInput rt config now nodeId msg ds = (datastore_save ds' nodeId h', Sent)
           \<and> subseq h' h
           \<and> (\<forall>m \<in> set h. categoryKey rt m \<noteq> ''__proto__'' \<longrightarrow>
                 filter (\<lambda>e. categoryKey rt e = categoryKey rt m) h'
                   = [last (filter (\<lambda>e. categoryKey rt e = categoryKey rt m) h)])"
proof -
  let ?key = "categoryKey rt"
  let ?h' = "filter (\<lambda>m. ?key m \<noteq> ''__proto__'') (latestOfEach ?key h)"
  have "\<not> timeWindowed config"
    using assms(1) by (simp add: timeWindowed_def)
  then have run: "onInput rt config now nodeId msg ds = (datastore_save ds' nodeId ?h', Sent)"
    using assms by (simp add: onInput_appended evict_category evictOlder_skipped)
  have "subseq ?h' (latestOfEach ?key h)"
    by simp
  then have sub: "subseq ?h' h"
    using latestOfEach_subseq [of ?key h] by (rule subseq_order.order_trans)
  have one: "\<forall>m \<in> set h. ?key m \<noteq> ''__proto__'' \<longrightarrow>
               filter (\<lambda>e. ?key e = ?key m) ?h' = [last (filter (\<lambda>e. ?key e = ?key m) h)]"
  proof (intro ballI impI)
    fix m
    assume m: "m \<in> set h" and other: "?key m \<noteq> ''__proto__''"
    have "filter (\<lambda>e. ?key e = ?key m) ?h'
            = filter (\<lambda>e. ?key e \<noteq> ''__proto__'' \<and> ?key e = ?key m) (latestOfEach ?key h)"
      by (simp add: conj_commute)
    also have "\<dots> = filter (\<lambda>e. ?key e = ?key m) (latestOfEach ?key h)"
      using other by (intro filter_cong refl) auto
    also have "\<dots> = [last (filter (\<lambda>e. ?key e = ?key m) h)]"
      using m by (simp add: latestOfEach_filter_key)
    finally show "filter (\<lambda>e. ?key e = ?key m) ?h' = [last (filter (\<lambda>e. ?key e = ?key m) h)]" .
  qed
  from run sub one show ?thesis by blast
qed

theorem categorical_keeps_latest_per_key_witness:
  "xAxisType chartConfig0 = ''category''
   \<and> \<not> isEmptyArray (field (point ''s'' (JStr ''y'') 0 5) ''payload'')
   \<and> list_all (categorised rt0)
        [point ''s'' (JStr ''x'') 0 1, point ''s'' (JStr ''y'') 0 2, point ''s'' (JStr ''x'') 0 3,
         point ''s'' (JStr ''z'') 0 4, point ''s'' (JStr ''y'') 0 5]
   \<and> onInput rt0 chartConfig0 0 ''chart'' (point ''s'' (JStr ''y'') 0 5)
        [''chart'' \<mapsto> [point ''s'' (JStr ''x'') 0 1, point ''s'' (JStr ''y'') 0 2,
                       point ''s'' (JStr ''x'') 0 3, point ''s'' (JStr ''z'') 0 4]]
       = ([''chart'' \<mapsto> [point ''s'' (JStr ''x'') 0 3, point ''s'' (JStr ''z'') 0 4,
                          point ''s'' (JStr ''y'') 0 5]], Sent)
   \<and> subseq [point ''s'' (JStr ''x'') 0 3, point ''s'' (JStr ''z'') 0 4, point ''s'' (JStr ''y'') 0 5]
        [point ''s'' (JStr ''x'') 0 1, point ''s'' (JStr ''y'') 0 2, point ''s'' (JStr ''x'') 0 3,
         point ''s'' (JStr ''z'') 0 4, point ''s'' (JStr ''y'') 0 5]"
proof -
  let ?x1 = "point ''s'' (JStr ''x'') 0 1" and ?y2 = "point ''s'' (JStr ''y'') 0 2"
  let ?x3 = "point ''s'' (JStr ''x'') 0 3" and ?z4 = "point ''s'' (JStr ''z'') 0 4"
  let ?y5 = "point ''s'' (JStr ''y'') 0 5"
  let ?ds = "[''chart'' \<mapsto> [?x1, ?y2, ?x3, ?z4]]"
  let ?ds' = "[''chart'' \<mapsto> [?x1, ?y2, ?x3, ?z4, ?y5]]"
  have a1: "xAxisType chartConfig0 = ''category''"
    by (simp add: chartConfig0_def)
  have a2: "\<not> isEmptyArray (field ?y5 ''payload'')"
    by (simp add: field_def point_def)
  have a3: "appendPayload ''chart'' ?y5 (beforeAppend chartConfig0 ''chart'' ?ds) = (?ds', None)"
    by (simp add: chart_eval)
  have a4: "datastore_get ?ds' ''chart'' = Some [?x1, ?y2, ?x3, ?z4, ?y5]"
    by (simp add: datastore_get_def)
  have a5: "\<forall>m \<in> set [?x1, ?y2, ?x3, ?z4, ?y5]. categorised rt0 m"
    by (simp add: categorised_def keyable_def datapointCategory_def field_def point_def)
  from categorical_keeps_latest_per_key [OF a1 a2 a3 a4 a5, of 0]
  obtain h' where r: "onInput rt0 chartConfig0 0 ''chart'' ?y5 ?ds = (datastore_save ?ds' ''chart'' h', Sent)"
    and sub: "subseq h' [?x1, ?y2, ?x3, ?z4, ?y5]"
    by blast
  have ev: "onInput rt0 chartConfig0 0 ''chart'' ?y5 ?ds = ([''chart'' \<mapsto> [?x3, ?z4, ?y5]], Sent)"
    by (simp add: chart_eval)
  from r ev have "datastore_save ?ds' ''chart'' h' ''chart'' = [''chart'' \<mapsto> [?x3, ?z4, ?y5]] ''chart''"
    by simp
  then have "h' = [?x3, ?z4, ?y5]"
    by (simp add: datastore_save_def)
  with sub ev a1 a2 a5 show ?thesis
    by (simp add: list_all_iff)
qed

text \<open>
  Claim C5 as stated speaks of distinct category values. The number \<open>1\<close> and the string
  \<open>"1"\<close> are distinct values with one property key: after appending an entry of category
  \<open>"1"\<close> to a history whose only entry has category \<open>1\<close>, one entry is left, and none
  bears the category \<open>1\<close>.
\<close>

theorem categorical_distinct_values_counterexample:
  "fst (onInput rt0 chartConfig0 0 ''chart'' (point ''s'' (JStr ''1'') 0 2)
          [''chart'' \<mapsto> [point ''s'' (JNum (Finite 1)) 0 1]]) ''chart''
     = Some [point ''s'' (JStr ''1'') 0 2]
   \<and> datapointCategory (point ''s'' (JNum (Finite 1)) 0 1) = Inr (JNum (Finite 1))
   \<and> datapointCategory (point ''s'' (JStr ''1'') 0 2) = Inr (JStr ''1'')
   \<and> JNum (Finite 1) \<noteq> JStr ''1''"
  by (simp add: chart_eval)

text \<open>
  Claim C6 fails on the code for a topic that names a property of \<open>Object.prototype\<close>.
  With a count window of 1 on a time axis, two messages of topic \<open>constructor\<close> sent to a
  chart without history are both kept, and three of topic \<open>__proto__\<close> are all kept,
  where two messages of topic \<open>A\<close> leave the second only: \<open>lineCounts\<close> is created by
  \<open>{}\<close>, so the first read of \<open>lineCounts['constructor']\<close> finds the inherited function
  instead of \<open>undefined\<close> and the newest entry is not counted, and every read of
  \<open>lineCounts['__proto__']\<close> finds the prototype object and no entry is ever counted.
\<close>

theorem count_window_miscounts_inherited_topics:
  "knobNumber (removeOlderPoints chartConfig1) = Finite 1
   \<and> xAxisType chartConfig1 \<noteq> ''category''
   \<and> onInput rt0 chartConfig1 0 ''chart'' (point ''constructor'' JUndefined 0 2)
        (fst (onInput rt0 chartConfig1 0 ''chart'' (point ''constructor'' JUndefined 0 1) Map.empty))
       = ([''chart'' \<mapsto> [point ''constructor'' JUndefined 0 1, point ''constructor'' JUndefined 0 2]],
          Sent)
   \<and> onInput rt0 chartConfig1 0 ''chart'' (point ''__proto__'' JUndefined 0 3)
        (fst (onInput rt0 chartConfig1 0 ''chart'' (point ''__proto__'' JUndefined 0 2)
           (fst (onInput rt0 chartConfig1 0 ''chart'' (point ''__proto__'' JUndefined 0 1) Map.empty))))
       = ([''chart'' \<mapsto> [point ''__proto__'' JUndefined 0 1, point ''__proto__'' JUndefined 0 2,
                          point ''__proto__'' JUndefined 0 3]], Sent)
   \<and> onInput rt0 chartConfig1 0 ''chart'' (point ''A'' JUndefined 0 2)
        (fst (onInput rt0 chartConfig1 0 ''chart'' (point ''A'' JUndefined 0 1) Map.empty))
       = ([''chart'' \<mapsto> [point ''A'' JUndefined 0 2]], Sent)"
  by (simp add: chart_eval chartConfig1_def)

text \<open>
  Claim C7. With a time axis and a retention of \<open>a\<close> times \<open>u\<close> seconds, after an append
  that went through and with an \<open>x\<close> that can be read and compared on every stored entry,
  \<open>onInput\<close> reaches \<open>send\<close> and the stored history is exactly the entries newer than
  the cutoff, \<open>now - (a * u) * 1000\<close> as the runtime computes it, of the history the count
  step left (the appended history itself when no count window applies), in their order:
  an entry with a numeric \<open>x\<close> stays if and only if \<open>x\<close> is greater than the cutoff, an
  entry with a string \<open>x\<close> if and only if the time \<open>Date\<close> parses it to is greater than
  the cutoff.
\<close>

theorem time_window_keeps_exactly_newer:
  assumes "xAxisType config = ''time''"
    and "removeOlder config = Parsed a" and "removeOlderUnit config = Parsed u"
    and "\<not> isEmptyArray (field msg ''payload'')"
    and "appendPayload nodeId msg (beforeAppend config nodeId ds) = (ds', None)"
    and "datastore_get ds' nodeId = Some h"
    and "countWindowed config \<longrightarrow> (\<forall>m \<in> set h. labelled rt m)"
    and "\<forall>m \<in> set h. comparable rt m"
  shows "\<exists>h' cutoff.
             onInput rt config now nodeId msg ds = (datastore_save ds' nodeId h', Sent)
           \<and> cutoff = subtract rt (Finite (of_int now)) (multiply rt (multiply rt a u) (Finite 1000))
           \<and> h' = filter (isNewer rt cutoff) (afterCountWindow rt config h)
           \<and> subseq (afterCountWindow rt config h) h
           \<and> (\<not> countWindowed config \<longrightarrow> afterCountWindow rt config h = h)
           \<and> (\<forall>m \<in> set (afterCountWindow rt config h). \<forall>t. datapointX m = Inr (JNum t) \<longrightarrow>
                 (m \<in> set h' \<longleftrightarrow> greater t cutoff))
           \<and> (\<forall>m \<in> set (afterCountWindow rt config h). \<forall>str. datapointX m = Inr (JStr str) \<longrightarrow>
                 (m \<in> set h' \<longleftrightarrow> greater (dateParse rt str) cutoff))"
proof -
  let ?h4 = "afterCountWindow rt config h"
  let ?c = "subtract rt (Finite (of_int now)) (multiply rt (multiply rt a u) (Finite 1000))"
  let ?h' = "filter (isNewer rt ?c) ?h4"
  have windowed: "timeWindowed config"
    using assms(1-3) by (simp add: timeWindowed_def)
  have cutoff: "cutoffOf rt config now = ?c"
    using assms(2,3) by (simp add: cutoffOf_def)
  have sub: "subseq ?h4 h"
    by (rule afterCountWindow_subseq)
  then have "set ?h4 \<subseteq> set h"
    by (auto elim: list_emb_set)
  with assms(8) have cmp: "\<forall>m \<in> set ?h4. comparable rt m"
    by blast
  have run: "onInput rt config now nodeId msg ds = (datastore_save ds' nodeId ?h', Sent)"
    using assms(1,4,5,6,7) windowed
    by (simp add: onInput_appended evict_count evictOlder_windowed cutoff filterNewer_filter [OF cmp])
  have same: "\<not> countWindowed config \<longrightarrow> ?h4 = h"
    by (simp add: afterCountWindow_def)
  have numeric: "\<forall>m \<in> set ?h4. \<forall>t. datapointX m = Inr (JNum t) \<longrightarrow>
                   (m \<in> set ?h' \<longleftrightarrow> greater t ?c)"
    by (simp add: isNewer_def timestamp_def)
  have dated: "\<forall>m \<in> set ?h4. \<forall>str. datapointX m = Inr (JStr str) \<longrightarrow>
                   (m \<in> set ?h' \<longleftrightarrow> greater (dateParse rt str) ?c)"
    by (simp add: isNewer_def timestamp_def)
  show ?thesis
  proof (intro exI conjI)
    show "onInput rt config now nodeId msg ds = (datastore_save ds' nodeId ?h', Sent)"
      by (rule run)
  qed (rule refl sub same numeric dated)+
qed

theorem time_window_keeps_exactly_newer_witness:
  "xAxisType chartConfig2 = ''time''
   \<and> removeOlder chartConfig2 = Parsed (Finite 1) \<and> removeOlderUnit chartConfig2 = Parsed (Finite 60)
   \<and> \<not> isEmptyArray (field (point ''A'' JUndefined 200000 3) ''payload'')
   \<and> \<not> countWindowed chartConfig2
   \<and> list_all (comparable rt0)
        [point ''A'' JUndefined 80000 1, point ''A'' JUndefined 170000 2,
         point ''A'' JUndefined 200000 3]
   \<and> subtract rt0 (Finite (of_int 200000)) (multiply rt0 (multiply rt0 (Finite 1) (Finite 60)) (Finite 1000))
       = Finite 140000
   \<and> onInput rt0 chartConfig2 200000 ''chart'' (point ''A'' JUndefined 200000 3)
        [''chart'' \<mapsto> [point ''A'' JUndefined 80000 1, point ''A'' JUndefined 170000 2]]
       = ([''chart'' \<mapsto> [point ''A'' JUndefined 170000 2, point ''A'' JUndefined 200000 3]], Sent)"
proof -
  let ?p1 = "point ''A'' JUndefined 80000 1" and ?p2 = "point ''A'' JUndefined 170000 2"
  let ?p3 = "point ''A'' JUndefined 200000 3"
  let ?ds = "[''chart'' \<mapsto> [?p1, ?p2]]"
  let ?ds' = "[''chart'' \<mapsto> [?p1, ?p2, ?p3]]"
  have a1: "xAxisType chartConfig2 = ''time''"
    by (simp add: chartConfig2_def)
  have a2: "removeOlder chartConfig2 = Parsed (Finite 1)"
    by (simp add: chartConfig2_def)
  have a3: "removeOlderUnit chartConfig2 = Parsed (Finite 60)"
    by (simp add: chartConfig2_def)
  have a4: "\<not> isEmptyArray (field ?p3 ''payload'')"
    by (simp add: field_def point_def)
  have a5: "appendPayload ''chart'' ?p3 (beforeAppend chartConfig2 ''chart'' ?ds) = (?ds', None)"
    by (simp add: chart_eval chartConfig2_def)
  have a6: "datastore_get ?ds' ''chart'' = Some [?p1, ?p2, ?p3]"
    by (simp add: datastore_get_def)
  have plain: "\<not> countWindowed chartConfig2"
    by (simp add: countWindowed_def chartConfig2_def)
  then have a7: "countWindowed chartConfig2 \<longrightarrow> (\<forall>m \<in> set [?p1, ?p2, ?p3]. labelled rt0 m)"
    by simp
  have a8: "\<forall>m \<in> set [?p1, ?p2, ?p3]. comparable rt0 m"
    by (simp add: comparable_def datapointX_def timestamp_def field_def point_def)
  have c: "subtract rt0 (Finite (of_int 200000)) (multiply rt0 (multiply rt0 (Finite 1) (Finite 60)) (Finite 1000))
             = Finite 140000"
    by (simp add: rt0_def exactTimes_def exactMinus_def)
  from time_window_keeps_exactly_newer [OF a1 a2 a3 a4 a5 a6 a7 a8, of 200000]
  obtain h' cutoff where r: "onInput rt0 chartConfig2 200000 ''chart'' ?p3 ?ds
                        = (datastore_save ?ds' ''chart'' h', Sent)"
    and cut: "cutoff = subtract rt0 (Finite (of_int 200000))
                         (multiply rt0 (multiply rt0 (Finite 1) (Finite 60)) (Finite 1000))"
    and eq: "h' = filter (isNewer rt0 cutoff) (afterCountWindow rt0 chartConfig2 [?p1, ?p2, ?p3])"
    by blast
  from cut c have "cutoff = Finite 140000"
    by simp
  with eq plain have "h' = [?p2, ?p3]"
    by (simp add: afterCountWindow_def isNewer_def datapointX_def timestamp_def
          greater_def field_def point_def)
  with r have "onInput rt0 chartConfig2 200000 ''chart'' ?p3 ?ds = ([''chart'' \<mapsto> [?p2, ?p3]], Sent)"
    by (simp add: datastore_save_def)
  with a1 a2 a3 a4 a8 plain c show ?thesis
    by (simp add: list_all_iff)
qed

text \<open>
  A retention that is a fraction: \<open>removeOlder = "1.5"\<close> with a unit of 60 seconds is a
  window of 90 seconds, and of the entries at 80, 110, 111 and 200 seconds, seen at 200
  seconds, those after 110 seconds stay.
\<close>

lemma time_window_fractional_retention:
  "cutoffOf rt0 chartConfig3 200000 = Finite 110000
   \<and> onInput rt0 chartConfig3 200000 ''chart'' (point ''A'' JUndefined 200000 4)
        [''chart'' \<mapsto> [point ''A'' JUndefined 80000 1, point ''A'' JUndefined 110000 2,
                       point ''A'' JUndefined 111000 3]]
       = ([''chart'' \<mapsto> [point ''A'' JUndefined 111000 3, point ''A'' JUndefined 200000 4]], Sent)"
  by (simp add: chart_eval chartConfig3_def)

section \<open>The base node: proofs\<close>

subsection \<open>The debounce\<close>

lemma emitConfig_frame [simp]:
  "emitConfigRequested (emitConfig sock s) = emitConfigRequested s"
  "clock (emitConfig sock s) = clock s"
  "connections (emitConfig sock s) = connections s"
  "statestore (emitConfig sock s) = statestore s"
  by (simp_all add: emitConfig_def Let_def)

lemma emitConfig_emitted:
  "emitted (emitConfig sock s) = emitted s @ [(sock_id sock, ui (emitConfig sock s))]"
  by (simp add: emitConfig_def Let_def)

lemma emitAll_frame:
  "emitConfigRequested (foldl (\<lambda>st sock. emitConfig sock st) s socks) = emitConfigRequested s
   \<and> clock (foldl (\<lambda>st sock. emitConfig sock st) s socks) = clock s
   \<and> connections (foldl (\<lambda>st sock. emitConfig sock st) s socks) = connections s
   \<and> map fst (emitted (foldl (\<lambda>st sock. emitConfig sock st) s socks))
        = map fst (emitted s) @ map sock_id socks"
  by (induction socks arbitrary: s) (simp_all add: emitConfig_emitted)

lemma fireEmitConfig_effect:
  "emitConfigRequested (fireEmitConfig s) = None
   \<and> clock (fireEmitConfig s) = clock s
   \<and> connections (fireEmitConfig s) = connections s
   \<and> map fst (emitted (fireEmitConfig s))
        = map fst (emitted s) @ map (\<lambda>c. sock_id (snd c)) (connections s)"
  using emitAll_frame [of s "map snd (connections s)"]
  by (simp add: fireEmitConfig_def comp_def)

lemma requestEmitConfig_pending:
  "emitConfigRequested s \<noteq> None \<Longrightarrow> requestEmitConfig s = s"
  by (simp add: requestEmitConfig_def)

lemma elapse_before_due:
  "emitConfigRequested s = Some due \<Longrightarrow> clock s + d < due \<Longrightarrow> elapse d s = s\<lparr>clock := clock s + d\<rparr>"
  by (simp add: elapse_def Let_def)

lemma elapse_idle:
  "emitConfigRequested s = None \<Longrightarrow> elapse d s = s\<lparr>clock := clock s + d\<rparr>"
  by (simp add: elapse_def Let_def)

lemma elapse_due:
  "emitConfigRequested s = Some due \<Longrightarrow> due \<le> clock s + d \<Longrightarrow>
   elapse d s = fireEmitConfig (s\<lparr>clock := clock s + d\<rparr>)"
  by (simp add: elapse_def Let_def)

lemma run_Cons: "run (ev # evs) s = run evs (step s ev)"
  by (simp add: run_def)

lemma run_pending:
  "emitConfigRequested s = Some due \<Longrightarrow> clock s + elapsed evs < due \<Longrightarrow>
   run evs s = s\<lparr>clock := clock s + elapsed evs\<rparr>"
proof (induction evs arbitrary: s)
  case Nil
  then show ?case by (simp add: run_def)
next
  case (Cons ev evs)
  show ?case
  proof (cases ev)
    case Request
    with Cons show ?thesis
      by (simp add: run_Cons requestEmitConfig_pending)
  next
    case (Elapse d)
    with Cons.prems have "elapse d s = s\<lparr>clock := clock s + d\<rparr>"
      by (simp add: elapse_before_due)
    with Elapse Cons.prems Cons.IH [of "s\<lparr>clock := clock s + d\<rparr>"] show ?thesis
      by (simp add: run_Cons add.assoc)
  qed
qed

text \<open>
  Claim C1. Let no emission be pending, and let a call of \<open>requestEmitConfig\<close> be followed
  by any events, further calls and passing time, that take less than 300 time units in
  all. Then nothing was emitted so far, the timer set by the first call is still pending
  and due 300 after that call, every further call left the state as it was, and another
  call is a no-op too. Once time has passed the due time, the timer has fired: every
  connected socket got exactly one \<open>ui-config\<close>, the flag is cleared, and passing time
  emits nothing more.
\<close>

theorem requestEmitConfig_debounced:
  assumes "emitConfigRequested s = None" and "elapsed evs < 300"
  shows "run (Request # evs) s
           = s\<lparr>emitConfigRequested := Some (clock s + 300), clock := clock s + elapsed evs\<rparr>
         \<and> requestEmitConfig (run (Request # evs) s) = run (Request # evs) s
         \<and> (\<forall>d. 300 \<le> elapsed evs + d \<longrightarrow>
               emitConfigRequested (elapse d (run (Request # evs) s)) = None
             \<and> map fst (emitted (elapse d (run (Request # evs) s)))
                 = map fst (emitted s) @ map (\<lambda>c. sock_id (snd c)) (connections s)
             \<and> (\<forall>d'. emitted (elapse d' (elapse d (run (Request # evs) s)))
                       = emitted (elapse d (run (Request # evs) s))))"
proof -
  let ?s1 = "s\<lparr>emitConfigRequested := Some (clock s + 300)\<rparr>"
  let ?s2 = "run (Request # evs) s"
  have s1: "requestEmitConfig s = ?s1"
    using assms(1) by (simp add: requestEmitConfig_def)
  have s2: "?s2 = ?s1\<lparr>clock := clock s + elapsed evs\<rparr>"
    using assms(2) run_pending [of ?s1 "clock s + 300" evs] by (simp add: run_Cons s1)
  then have pending: "emitConfigRequested ?s2 = Some (clock s + 300)"
    by simp
  have fire: "elapse d ?s2 = fireEmitConfig (?s2\<lparr>clock := clock ?s2 + d\<rparr>)"
    if "300 \<le> elapsed evs + d" for d
    using that pending by (intro elapse_due [where due = "clock s + 300"]) (simp_all add: s2)
  have after: "emitConfigRequested (elapse d ?s2) = None
       \<and> map fst (emitted (elapse d ?s2))
            = map fst (emitted s) @ map (\<lambda>c. sock_id (snd c)) (connections s)
       \<and> (\<forall>d'. emitted (elapse d' (elapse d ?s2)) = emitted (elapse d ?s2))"
    if "300 \<le> elapsed evs + d" for d
  proof -
    have "emitConfigRequested (elapse d ?s2) = None"
      using fireEmitConfig_effect [of "?s2\<lparr>clock := clock ?s2 + d\<rparr>"] fire [OF that] by simp
    moreover from this have "\<forall>d'. emitted (elapse d' (elapse d ?s2)) = emitted (elapse d ?s2)"
      by (simp add: elapse_idle)
    moreover have "map fst (emitted (elapse d ?s2))
            = map fst (emitted s) @ map (\<lambda>c. sock_id (snd c)) (connections s)"
      using fireEmitConfig_effect [of "?s2\<lparr>clock := clock ?s2 + d\<rparr>"] fire [OF that]
      by (simp add: s2)
    ultimately show ?thesis by blast
  qed
  have "requestEmitConfig ?s2 = ?s2"
    using pending by (simp add: requestEmitConfig_pending)
  with s2 after show ?thesis
    by simp
qed

lemmas base_eval =
  base0_def socketA_def socketB_def run_def requestEmitConfig_def elapse_def fireEmitConfig_def
  emitConfig_def mergeWidgets_def mergeEntries_def statestore_getAll_def Let_def

theorem requestEmitConfig_debounced_witness:
  "emitConfigRequested base0 = None
   \<and> elapsed [Elapse 100, Request, Elapse 150, Request] < 300
   \<and> emitted (run [Request, Elapse 100, Request, Elapse 150, Request] base0) = []
   \<and> emitConfigRequested (run [Request, Elapse 100, Request, Elapse 150, Request] base0) = Some 300
   \<and> map fst (emitted (elapse 50 (run [Request, Elapse 100, Request, Elapse 150, Request] base0)))
        = [''a'', ''b'']
   \<and> emitConfigRequested (elapse 50 (run [Request, Elapse 100, Request, Elapse 150, Request] base0))
        = None"
proof -
  let ?evs = "[Elapse 100, Request, Elapse 150, Request]"
  have a1: "emitConfigRequested base0 = None"
    by (simp add: base0_def)
  have a2: "elapsed ?evs < 300"
    by simp
  have a3: "300 \<le> elapsed ?evs + 50"
    by simp
  from requestEmitConfig_debounced [OF a1 a2] a3
  have "run (Request # ?evs) base0
          = base0\<lparr>emitConfigRequested := Some (clock base0 + 300), clock := clock base0 + elapsed ?evs\<rparr>"
    and "emitConfigRequested (elapse 50 (run (Request # ?evs) base0)) = None"
    and "map fst (emitted (elapse 50 (run (Request # ?evs) base0)))
           = map fst (emitted base0) @ map (\<lambda>c. sock_id (snd c)) (connections base0)"
    by blast+
  then show ?thesis
    using a1 a2 by (simp add: base0_def socketA_def socketB_def)
qed

subsection \<open>Eligibility\<close>

lemma isValidConnection_other:
  assumes "truthy (clientSocketId msg)" and "clientSocketId msg \<noteq> JStr (sock_id conn)"
  shows "\<not> isValidConnection ps conn msg"
  using assms by (simp add: isValidConnection_def Let_def)

lemma isValidConnection_untargeted:
  assumes "\<not> truthy (clientSocketId msg)" and "JBool False \<notin> set (pluginChecks ps conn msg)"
  shows "isValidConnection ps conn msg"
  using assms by (simp add: isValidConnection_def Let_def)

text \<open>
  Claim C2, as the code has it. A message whose \<open>_client.socketId\<close> is set to anything but
  the connection's id is not sent to the connection, provided the emitting node is absent
  or of a type listed in \<open>acceptsClientConfig\<close>. A message with no target, to which no
  \<open>onIsValidConnection\<close> hook answers \<open>false\<close>, is sent to every connection. A message
  from a node of a type that is not listed is sent to every connection, whatever its target.
\<close>

theorem canSendTo_respects_target:
  "(truthy (clientSocketId msg) \<and> clientSocketId msg \<noteq> JStr (sock_id conn)
      \<and> nodeAllowsConstraints e wNode \<longrightarrow> \<not> canSendTo e conn wNode msg)
   \<and> (\<not> truthy (clientSocketId msg) \<and> JBool False \<notin> set (pluginChecks (plugins e) conn msg)
        \<longrightarrow> canSendTo e conn wNode msg)
   \<and> (\<not> nodeAllowsConstraints e wNode \<longrightarrow> canSendTo e conn wNode msg)"
proof (intro conjI impI)
  assume "truthy (clientSocketId msg) \<and> clientSocketId msg \<noteq> JStr (sock_id conn)
            \<and> nodeAllowsConstraints e wNode"
  then show "\<not> canSendTo e conn wNode msg"
    by (simp add: canSendTo_def isValidConnection_other)
next
  assume "\<not> truthy (clientSocketId msg) \<and> JBool False \<notin> set (pluginChecks (plugins e) conn msg)"
  then show "canSendTo e conn wNode msg"
    by (auto simp: canSendTo_def isValidConnection_untargeted)
next
  assume "\<not> nodeAllowsConstraints e wNode"
  then show "canSendTo e conn wNode msg"
    by (simp add: canSendTo_def)
qed

lemmas send_eval =
  canSendTo_def nodeAllowsConstraints_def init_acceptsClientConfig_def isValidConnection_def
  pluginChecks_def clientSocketId_def optChain_def field_def env0_def node0_def msgTo_def
  socketA_def socketB_def Let_def

theorem canSendTo_respects_target_witness:
  "truthy (clientSocketId (msgTo ''b''))
   \<and> clientSocketId (msgTo ''b'') \<noteq> JStr (sock_id socketA)
   \<and> nodeAllowsConstraints env0 (Some (node0 ''n1'' ''ui-control''))
   \<and> \<not> canSendTo env0 socketA (Some (node0 ''n1'' ''ui-control'')) (msgTo ''b'')
   \<and> \<not> canSendTo env0 socketA None (msgTo ''b'')
   \<and> canSendTo env0 socketB (Some (node0 ''n1'' ''ui-control'')) (msgTo ''b'')
   \<and> \<not> truthy (clientSocketId [(''payload'', JNum (Finite 1))])
   \<and> canSendTo env0 socketA (Some (node0 ''n1'' ''ui-control'')) [(''payload'', JNum (Finite 1))]
   \<and> canSendTo env0 socketB (Some (node0 ''n1'' ''ui-control'')) [(''payload'', JNum (Finite 1))]
   \<and> \<not> nodeAllowsConstraints env0 (Some (node0 ''w1'' ''ui-button''))
   \<and> canSendTo env0 socketA (Some (node0 ''w1'' ''ui-button'')) (msgTo ''b'')"
proof -
  have a1: "truthy (clientSocketId (msgTo ''b''))"
    by (simp add: send_eval)
  have a2: "clientSocketId (msgTo ''b'') \<noteq> JStr (sock_id socketA)"
    by (simp add: send_eval)
  have a3: "nodeAllowsConstraints env0 (Some (node0 ''n1'' ''ui-control''))"
    by (simp add: send_eval)
  have a4: "nodeAllowsConstraints env0 None"
    by (simp add: send_eval)
  have b1: "\<not> truthy (clientSocketId [(''payload'', JNum (Finite 1))])"
    by (simp add: send_eval)
  have b2: "JBool False \<notin> set (pluginChecks (plugins env0) conn [(''payload'', JNum (Finite 1))])" for conn
    by (simp add: send_eval)
  have "\<not> canSendTo env0 socketA (Some (node0 ''n1'' ''ui-control'')) (msgTo ''b'')"
    using canSendTo_respects_target [of "msgTo ''b''" socketA env0 "Some (node0 ''n1'' ''ui-control'')"]
      a1 a2 a3 by blast
  moreover have "\<not> canSendTo env0 socketA None (msgTo ''b'')"
    using canSendTo_respects_target [of "msgTo ''b''" socketA env0 None] a1 a2 a4 by blast
  moreover have "canSendTo env0 conn (Some (node0 ''n1'' ''ui-control'')) [(''payload'', JNum (Finite 1))]" for conn
    using canSendTo_respects_target [of "[(''payload'', JNum (Finite 1))]" conn env0 "Some (node0 ''n1'' ''ui-control'')"]
      b1 b2 by blast
  moreover have "canSendTo env0 socketB (Some (node0 ''n1'' ''ui-control'')) (msgTo ''b'')"
    by (simp add: send_eval)
  moreover have c1: "\<not> nodeAllowsConstraints env0 (Some (node0 ''w1'' ''ui-button''))"
    by (simp add: send_eval)
  moreover have "canSendTo env0 socketA (Some (node0 ''w1'' ''ui-button'')) (msgTo ''b'')"
    using canSendTo_respects_target [of "msgTo ''b''" socketA env0 "Some (node0 ''w1'' ''ui-button'')"]
      c1 by blast
  ultimately show ?thesis
    using a1 a2 a3 b1 by simp
qed

text \<open>
  Claim C2 as stated, for every emitting node, fails: \<open>ui-button\<close> is not among the default
  types of \<open>acceptsClientConfig\<close>, and a button's message addressed to socket \<open>b\<close> may be
  sent to socket \<open>a\<close>.
\<close>

theorem canSendTo_other_target_counterexample:
  "clientSocketId (msgTo ''b'') = JStr ''b''
   \<and> sock_id socketA = ''a''
   \<and> canSendTo env0 socketA (Some (node0 ''w1'' ''ui-button'')) (msgTo ''b'')"
  by (simp add: send_eval)

subsection \<open>The state store and register\<close>

lemma field_update: "field (AList.update k v ob) k' = (if k' = k then v else field ob k')"
  by (simp add: field_def update_conv')

lemma getProperty_set:
  "statestore_getProperty (statestore_set store wid prop v) wid' prop'
     = (if wid' = wid \<and> prop' = prop then v else statestore_getProperty store wid' prop')"
  by (auto simp: statestore_getProperty_def statestore_set_def update_conv' field_update field_def
           split: option.splits)

lemma getProperty_seedDefault:
  "statestore_getProperty (seedDefault wid prop v store) wid' prop'
     = (if wid' = wid \<and> prop' = prop \<and> statestore_getProperty store wid prop = JUndefined
        then v else statestore_getProperty store wid' prop')"
  by (simp add: seedDefault_def getProperty_set)

lemma seedDefault_set:
  "statestore_getProperty store wid prop \<noteq> JUndefined \<Longrightarrow> seedDefault wid prop v store = store"
  by (simp add: seedDefault_def)

lemma getProperty_seedDefaults:
  "statestore_getProperty (seedDefaults wid store) wid' prop
     = (if wid' = wid \<and> statestore_getProperty store wid prop = JUndefined
        then (if prop = ''enabled'' then JBool True
              else if prop = ''visible'' then JBool True
              else if prop = ''class'' then JStr [] else JUndefined)
        else statestore_getProperty store wid' prop)"
  by (simp add: seedDefaults_def getProperty_seedDefault)

lemma seedDefaults_set:
  assumes "statestore_getProperty store wid ''enabled'' \<noteq> JUndefined"
    and "statestore_getProperty store wid ''visible'' \<noteq> JUndefined"
    and "statestore_getProperty store wid ''class'' \<noteq> JUndefined"
  shows "seedDefaults wid store = store"
  using assms by (simp add: seedDefaults_def seedDefault_set)

lemma seedDefaults_seeded:
  "statestore_getProperty (seedDefaults wid store) wid ''enabled'' \<noteq> JUndefined
   \<and> statestore_getProperty (seedDefaults wid store) wid ''visible'' \<noteq> JUndefined
   \<and> statestore_getProperty (seedDefaults wid store) wid ''class'' \<noteq> JUndefined"
  by (simp add: getProperty_seedDefaults)

lemma requestEmitConfig_frame [simp]:
  "statestore (requestEmitConfig s) = statestore s"
  "ui (requestEmitConfig s) = ui s"
  "emitted (requestEmitConfig s) = emitted s"
  "connections (requestEmitConfig s) = connections s"
  "sent (requestEmitConfig s) = sent s"
  by (simp_all add: requestEmitConfig_def)

lemma requestEmitConfig_requested: "emitConfigRequested (requestEmitConfig s) \<noteq> None"
  by (simp add: requestEmitConfig_def)

lemma register_statestore:
  "statestore (register e page grp (Some wn) (Some cfg) ev s) = seedDefaults (idOf cfg) (statestore s)"
  by (simp add: register_def Let_def)

lemma register_statestore_no_widget:
  "widgetNode = None \<or> widgetConfig = None \<Longrightarrow>
   statestore (register e page grp widgetNode widgetConfig ev s) = statestore s"
  by (auto simp: register_def Let_def split: option.splits)

text \<open>
  Claim C4. Registering a widget changes the state store only where the widget's
  \<open>enabled\<close>, \<open>visible\<close> or \<open>class\<close> reads \<open>undefined\<close>, and writes \<open>true\<close>, \<open>true\<close> and
  the empty string there; every property that is set, of this or any other widget, reads
  the same afterwards; registering the same widget id a second time leaves the whole
  store as the first registration left it; and so does any registration of a widget
  whose three properties are set.
\<close>

theorem register_seeds_defaults_once:
  "(\<forall>w p. statestore_getProperty (statestore (register e page grp (Some wn) (Some cfg) ev s)) w p
           = (if w = idOf cfg \<and> statestore_getProperty (statestore s) w p = JUndefined
              then (if p = ''enabled'' then JBool True
                    else if p = ''visible'' then JBool True
                    else if p = ''class'' then JStr [] else JUndefined)
              else statestore_getProperty (statestore s) w p))
   \<and> (\<forall>w p. statestore_getProperty (statestore s) w p \<noteq> JUndefined \<longrightarrow>
         statestore_getProperty (statestore (register e page grp (Some wn) (Some cfg) ev s)) w p
           = statestore_getProperty (statestore s) w p)
   \<and> (\<forall>e' page' grp' wn' cfg' ev'. idOf cfg' = idOf cfg \<longrightarrow>
         statestore (register e' page' grp' (Some wn') (Some cfg') ev'
                       (register e page grp (Some wn) (Some cfg) ev s))
           = statestore (register e page grp (Some wn) (Some cfg) ev s))
   \<and> (statestore_getProperty (statestore s) (idOf cfg) ''enabled'' \<noteq> JUndefined
        \<and> statestore_getProperty (statestore s) (idOf cfg) ''visible'' \<noteq> JUndefined
        \<and> statestore_getProperty (statestore s) (idOf cfg) ''class'' \<noteq> JUndefined \<longrightarrow>
       statestore (register e page grp (Some wn) (Some cfg) ev s) = statestore s)"
proof (intro conjI allI impI)
  fix w p
  show "statestore_getProperty (statestore (register e page grp (Some wn) (Some cfg) ev s)) w p
           = (if w = idOf cfg \<and> statestore_getProperty (statestore s) w p = JUndefined
              then (if p = ''enabled'' then JBool True
                    else if p = ''visible'' then JBool True
                    else if p = ''class'' then JStr [] else JUndefined)
              else statestore_getProperty (statestore s) w p)"
    by (auto simp: register_statestore getProperty_seedDefaults)
next
  fix w p
  assume "statestore_getProperty (statestore s) w p \<noteq> JUndefined"
  then show "statestore_getProperty (statestore (register e page grp (Some wn) (Some cfg) ev s)) w p
           = statestore_getProperty (statestore s) w p"
    by (auto simp: register_statestore getProperty_seedDefaults)
next
  fix e' page' grp' wn' cfg' ev'
  assume "idOf cfg' = idOf cfg"
  then show "statestore (register e' page' grp' (Some wn') (Some cfg') ev'
                       (register e page grp (Some wn) (Some cfg) ev s))
           = statestore (register e page grp (Some wn) (Some cfg) ev s)"
    using seedDefaults_seeded [of "idOf cfg" "statestore s"]
    by (simp add: register_statestore seedDefaults_set)
next
  assume "statestore_getProperty (statestore s) (idOf cfg) ''enabled'' \<noteq> JUndefined
        \<and> statestore_getProperty (statestore s) (idOf cfg) ''visible'' \<noteq> JUndefined
        \<and> statestore_getProperty (statestore s) (idOf cfg) ''class'' \<noteq> JUndefined"
  then show "statestore (register e page grp (Some wn) (Some cfg) ev s) = statestore s"
    by (simp add: register_statestore seedDefaults_set)
qed

lemmas register_eval =
  register_def seedDefaults_def seedDefault_def statestore_getProperty_def statestore_set_def
  statestore_getAll_def buildWidget_def widgetProps_def zeroToNull_def registerThemeOf_def
  registerTheme_def has_def idOf_def typeOf_def field_def jsOr_def requestEmitConfig_def
  env0_def node0_def base0_def socketA_def socketB_def page1_def group1_def buttonConfig_def
  actionHooks_def Let_def

lemma base2_value:
  "base2 =
     \<lparr>ui = \<lparr>heads = [], dashboards = [(''base'', [(''id'', JStr ''base'')])],
             pages = [(''p1'', page1)],
             themes = [],
             groups = [(''g1'', [(''id'', JStr ''g1''), (''page'', JStr ''p1'')])],
             widgets =
               [(''w1'', \<lparr>w_id = ''w1'', w_type = ''ui-button'',
                          w_props = [(''group'', JStr ''g1''), (''label'', JStr ''press'')],
                          w_layout = [(''width'', JNum (Finite 3)), (''height'', JNum (Finite 1)), (''order'', JNum (Finite 0))],
                          w_state = [(''enabled'', JBool True), (''visible'', JBool True),
                                     (''class'', JStr [])],
                          w_hooks = Some actionHooks, w_src = JUndefined,
                          w_onSocketHandlers = False\<rparr>),
                (''w2'', \<lparr>w_id = ''w2'', w_type = ''ui-button'',
                          w_props = [(''group'', JStr ''g1''), (''label'', JStr ''press'')],
                          w_layout = [(''width'', JNum (Finite 3)), (''height'', JNum (Finite 1)), (''order'', JNum (Finite 0))],
                          w_state = [(''enabled'', JBool True), (''visible'', JBool True),
                                     (''class'', JStr [])],
                          w_hooks = None, w_src = JUndefined,
                          w_onSocketHandlers = False\<rparr>)]\<rparr>,
      statestore =
        [(''w1'', [(''enabled'', JBool True), (''visible'', JBool True), (''class'', JStr [])]),
         (''w2'', [(''enabled'', JBool True), (''visible'', JBool True), (''class'', JStr [])])],
      connections = [(''a'', socketA), (''b'', socketB)],
      emitConfigRequested = Some 300, clock = 0, emitted = [], offCalls = [], sent = [],
      errors = [],
      inputListeners =
        [(''w1'', Some [(''group'', JStr ''g1''), (''label'', JStr ''press'')]),
         (''w2'', Some [(''group'', JStr ''g1''), (''label'', JStr ''press'')])]\<rparr>"
  unfolding base2_def by (simp add: register_eval)

theorem register_seeds_defaults_once_witness:
  "statestore_getProperty (statestore base0) ''w1'' ''enabled'' = JUndefined
   \<and> statestore_getProperty
        (statestore (register env0 (Some page1) (Some group1) (Some (node0 ''w1'' ''ui-button''))
                       (Some (buttonConfig ''w1'')) (Some actionHooks) base0))
        ''w1'' ''enabled'' = JBool True
   \<and> statestore_getProperty
        (statestore (base2\<lparr>statestore := statestore_set (statestore base2) ''w1'' ''enabled'' (JBool False)\<rparr>))
        ''w1'' ''enabled'' = JBool False
   \<and> statestore_getProperty
        (statestore (register env0 (Some page1) (Some group1) (Some (node0 ''w1'' ''ui-button''))
                       (Some (buttonConfig ''w1'')) (Some actionHooks)
                       (base2\<lparr>statestore := statestore_set (statestore base2) ''w1'' ''enabled'' (JBool False)\<rparr>)))
        ''w1'' ''enabled'' = JBool False
   \<and> statestore (register env0 (Some page1) (Some group1) (Some (node0 ''w2'' ''ui-button''))
                    (Some (buttonConfig ''w2'')) None base2)
       = statestore base2
   \<and> statestore (register env0 (Some page1) (Some group1) (Some (node0 ''w1'' ''ui-button''))
                    (Some (buttonConfig ''w1'')) (Some actionHooks)
                    (base2\<lparr>statestore := statestore_set (statestore base2) ''w1'' ''enabled'' (JBool False)\<rparr>))
       = statestore_set (statestore base2) ''w1'' ''enabled'' (JBool False)"
proof -
  let ?reg1 = "register env0 (Some page1) (Some group1) (Some (node0 ''w1'' ''ui-button''))
                 (Some (buttonConfig ''w1'')) (Some actionHooks)"
  let ?reg2 = "register env0 (Some page1) (Some group1) (Some (node0 ''w2'' ''ui-button''))
                 (Some (buttonConfig ''w2'')) None"
  let ?disabled = "base2\<lparr>statestore := statestore_set (statestore base2) ''w1'' ''enabled'' (JBool False)\<rparr>"
  have id1: "idOf (buttonConfig ''w1'') = ''w1''"
    by (simp add: idOf_def field_def buttonConfig_def)
  have fresh: "statestore_getProperty (statestore base0) ''w1'' ''enabled'' = JUndefined"
    by (simp add: statestore_getProperty_def base0_def)
  have off: "statestore_getProperty (statestore ?disabled) ''w1'' ''enabled'' = JBool False"
    by (simp add: getProperty_set)
  have first: "statestore_getProperty (statestore (?reg1 base0)) ''w1'' ''enabled'' = JBool True"
    using register_seeds_defaults_once
            [of env0 "Some page1" "Some group1" "node0 ''w1'' ''ui-button''" "buttonConfig ''w1''"
                "Some actionHooks" base0]
      fresh id1 by simp
  have kept: "statestore_getProperty (statestore (?reg1 ?disabled)) ''w1'' ''enabled'' = JBool False"
    using register_seeds_defaults_once
            [of env0 "Some page1" "Some group1" "node0 ''w1'' ''ui-button''" "buttonConfig ''w1''"
                "Some actionHooks" ?disabled]
      off by simp
  have again: "statestore (?reg2 base2) = statestore base2"
    using register_seeds_defaults_once
            [of env0 "Some page1" "Some group1" "node0 ''w2'' ''ui-button''" "buttonConfig ''w2''"
                None "?reg1 base0"]
    unfolding base2_def by blast
  have seeded: "statestore_getProperty (statestore ?disabled) ''w1'' ''enabled'' \<noteq> JUndefined
        \<and> statestore_getProperty (statestore ?disabled) ''w1'' ''visible'' \<noteq> JUndefined
        \<and> statestore_getProperty (statestore ?disabled) ''w1'' ''class'' \<noteq> JUndefined"
    by (simp add: getProperty_set) (simp add: base2_value statestore_getProperty_def field_def)
  have whole: "statestore (?reg1 ?disabled) = statestore ?disabled"
    using register_seeds_defaults_once
            [of env0 "Some page1" "Some group1" "node0 ''w1'' ''ui-button''" "buttonConfig ''w1''"
                "Some actionHooks" ?disabled]
      seeded id1 by simp
  from fresh first off kept again whole show ?thesis
    by simp
qed

subsection \<open>emitConfig\<close>

lemma spread_lookup: "map_of (spread a b) = map_of a ++ map_of (rev b)"
  unfolding spread_def
proof (induction b arbitrary: a)
  case Nil
  then show ?case by simp
next
  case (Cons kv b)
  obtain k v where kv: "kv = (k, v)" by (cases kv)
  have "map_of (foldl (\<lambda>ob (k, v). AList.update k v ob) (AList.update k v a) b)
          = map_of (AList.update k v a) ++ map_of (rev b)"
    by (rule Cons.IH)
  then show ?case
    by (simp add: kv update_conv' map_add_upd_left)
qed

lemma field_spread:
  "field (spread a b) k = (case map_of (rev b) k of None \<Rightarrow> field a k | Some v \<Rightarrow> v)"
  by (simp add: field_def spread_lookup map_add_def split: option.splits)

lemma merge_fold_lookup:
  "distinct (map fst xs) \<Longrightarrow>
   map_of (foldl (\<lambda>m (k, v). case look k of None \<Rightarrow> m | Some st \<Rightarrow> AList.update k (g v st) m) m xs) k
     = (case map_of xs k of
          None \<Rightarrow> map_of m k
        | Some v \<Rightarrow> (case look k of None \<Rightarrow> map_of m k | Some st \<Rightarrow> Some (g v st)))"
proof (induction xs arbitrary: m)
  case Nil
  then show ?case by simp
next
  case (Cons kv xs)
  obtain k0 v0 where kv: "kv = (k0, v0)" by (cases kv)
  from Cons.prems kv have fresh: "map_of xs k0 = None" and dist: "distinct (map fst xs)"
    by (auto simp: map_of_eq_None_iff)
  show ?case
    using Cons.IH [OF dist] fresh
    by (simp add: kv update_conv' split: option.splits)
qed

lemma merge_fold_keys:
  "set (map fst xs) \<subseteq> set (map fst m) \<Longrightarrow>
   map fst (foldl (\<lambda>m (k, v). case look k of None \<Rightarrow> m | Some st \<Rightarrow> AList.update k (g v st) m) m xs)
     = map fst m"
proof (induction xs arbitrary: m)
  case Nil
  then show ?case by simp
next
  case (Cons kv xs)
  obtain k0 v0 where kv: "kv = (k0, v0)" by (cases kv)
  show ?case
  proof (cases "look k0")
    case None
    with Cons kv show ?thesis by simp
  next
    case (Some st)
    from Cons.prems kv have "map fst (AList.update k0 (g v0 st) m) = map fst m"
      by (simp add: update_keys)
    with Cons.IH [of "AList.update k0 (g v0 st) m"] Cons.prems kv Some show ?thesis
      by simp
  qed
qed

lemma mergeEntries_lookup:
  assumes "distinct (map fst entries)"
  shows "map_of (mergeEntries store entries) k
           = (case map_of entries k of
                None \<Rightarrow> None
              | Some entry \<Rightarrow>
                  Some (case statestore_getAll store k of
                          None \<Rightarrow> entry | Some state \<Rightarrow> spread entry state))"
  unfolding mergeEntries_def
  using merge_fold_lookup [OF assms, where look = "statestore_getAll store" and g = spread
                             and m = entries and k = k]
  by (simp split: option.splits)

lemma mergeWidgets_lookup:
  assumes "distinct (map fst ws)"
  shows "map_of (mergeWidgets store ws) k
           = (case map_of ws k of
                None \<Rightarrow> None
              | Some w \<Rightarrow>
                  Some (case statestore_getAll store k of
                          None \<Rightarrow> w
                        | Some state \<Rightarrow>
                            w\<lparr>w_props := spread (w_props w) state,
                              w_state := spread (w_state w) state\<rparr>))"
  unfolding mergeWidgets_def
  using merge_fold_lookup
          [OF assms, where look = "statestore_getAll store"
             and g = "\<lambda>w state. w\<lparr>w_props := spread (w_props w) state,
                                    w_state := spread (w_state w) state\<rparr>"
             and m = ws and k = k]
  by (simp split: option.splits)

lemma mergeEntries_keys: "map fst (mergeEntries store entries) = map fst entries"
  unfolding mergeEntries_def by (rule merge_fold_keys) simp

lemma mergeWidgets_keys: "map fst (mergeWidgets store ws) = map fst ws"
  unfolding mergeWidgets_def by (rule merge_fold_keys) simp

lemma emitConfig_ui:
  "ui (emitConfig sock s)
     = (ui s)\<lparr>widgets := mergeWidgets (statestore s) (widgets (ui s)),
              pages := mergeEntries (statestore s) (pages (ui s)),
              groups := mergeEntries (statestore s) (groups (ui s))\<rparr>"
  by (simp add: emitConfig_def Let_def)

text \<open>
  Claim C9, as the code has it. \<open>emitConfig\<close> writes the merge back into the registry: a
  widget with entries in the state store has its \<open>props\<close> and \<open>state\<close> replaced by the
  merged objects, a page and a group with entries are replaced by their merged copies,
  and the snapshot emitted is the registry as it is afterwards. In a merged object a
  property of the state store has the store's value, so the value \<open>props\<close> had for it
  before is gone from the registry. The object \<open>props\<close> was before is not changed by
  the merge: the input listeners keep the configurations they close over.
\<close>

theorem emitConfig_rewrites_registry:
  assumes "distinct (map fst (widgets (ui s)))"
    and "distinct (map fst (pages (ui s)))"
    and "distinct (map fst (groups (ui s)))"
  shows "emitted (emitConfig sock s) = emitted s @ [(sock_id sock, ui (emitConfig sock s))]
       \<and> (\<forall>wid w state. map_of (widgets (ui s)) wid = Some w
              \<and> statestore_getAll (statestore s) wid = Some state \<longrightarrow>
            map_of (widgets (ui (emitConfig sock s))) wid
              = Some (w\<lparr>w_props := spread (w_props w) state, w_state := spread (w_state w) state\<rparr>))
       \<and> (\<forall>pid page state. map_of (pages (ui s)) pid = Some page
              \<and> statestore_getAll (statestore s) pid = Some state \<longrightarrow>
            map_of (pages (ui (emitConfig sock s))) pid = Some (spread page state))
       \<and> (\<forall>gid grp state. map_of (groups (ui s)) gid = Some grp
              \<and> statestore_getAll (statestore s) gid = Some state \<longrightarrow>
            map_of (groups (ui (emitConfig sock s))) gid = Some (spread grp state))
       \<and> (\<forall>a state k v. map_of (rev state) k = Some v \<longrightarrow> field (spread a state) k = v)
       \<and> map fst (widgets (ui (emitConfig sock s))) = map fst (widgets (ui s))
       \<and> map fst (pages (ui (emitConfig sock s))) = map fst (pages (ui s))
       \<and> map fst (groups (ui (emitConfig sock s))) = map fst (groups (ui s))
       \<and> inputListeners (emitConfig sock s) = inputListeners s"
proof (intro conjI allI impI)
  show "emitted (emitConfig sock s) = emitted s @ [(sock_id sock, ui (emitConfig sock s))]"
    by (rule emitConfig_emitted)
next
  fix wid w state
  assume "map_of (widgets (ui s)) wid = Some w \<and> statestore_getAll (statestore s) wid = Some state"
  then show "map_of (widgets (ui (emitConfig sock s))) wid
               = Some (w\<lparr>w_props := spread (w_props w) state, w_state := spread (w_state w) state\<rparr>)"
    using assms(1) by (simp add: emitConfig_ui mergeWidgets_lookup del: map_of_eq_Some_iff)
next
  fix pid page state
  assume "map_of (pages (ui s)) pid = Some page \<and> statestore_getAll (statestore s) pid = Some state"
  then show "map_of (pages (ui (emitConfig sock s))) pid = Some (spread page state)"
    using assms(2) by (simp add: emitConfig_ui mergeEntries_lookup del: map_of_eq_Some_iff)
next
  fix gid grp state
  assume "map_of (groups (ui s)) gid = Some grp \<and> statestore_getAll (statestore s) gid = Some state"
  then show "map_of (groups (ui (emitConfig sock s))) gid = Some (spread grp state)"
    using assms(3) by (simp add: emitConfig_ui mergeEntries_lookup del: map_of_eq_Some_iff)
next
  fix a state :: obj and k v
  assume "map_of (rev state) k = Some v"
  then show "field (spread a state) k = v"
    by (simp add: field_spread)
next
  show "map fst (widgets (ui (emitConfig sock s))) = map fst (widgets (ui s))"
    by (simp add: emitConfig_ui mergeWidgets_keys)
  show "map fst (pages (ui (emitConfig sock s))) = map fst (pages (ui s))"
    by (simp add: emitConfig_ui mergeEntries_keys)
  show "map fst (groups (ui (emitConfig sock s))) = map fst (groups (ui s))"
    by (simp add: emitConfig_ui mergeEntries_keys)
  show "inputListeners (emitConfig sock s) = inputListeners s"
    by (simp add: emitConfig_def Let_def)
qed

theorem emitConfig_rewrites_registry_witness:
  "distinct (map fst (widgets (ui base3)))
   \<and> distinct (map fst (pages (ui base3)))
   \<and> distinct (map fst (groups (ui base3)))
   \<and> map_option (\<lambda>w. field (w_props w) ''label'') (map_of (widgets (ui base3)) ''w1'')
       = Some (JStr ''press'')
   \<and> map_option (\<lambda>w. field (w_props w) ''label'')
        (map_of (widgets (ui (emitConfig socketA base3))) ''w1'')
       = Some (JStr ''dynamic'')
   \<and> map_option (\<lambda>p. field p ''name'') (map_of (pages (ui (emitConfig socketA base3))) ''p1'')
       = Some (JStr ''Renamed'')
   \<and> emitted (emitConfig socketA base3) = [(''a'', ui (emitConfig socketA base3))]
   \<and> inputListeners (emitConfig socketA base3) = inputListeners base3"
proof -
  let ?w1 = "\<lparr>w_id = ''w1'', w_type = ''ui-button'',
               w_props = [(''group'', JStr ''g1''), (''label'', JStr ''press'')],
               w_layout = [(''width'', JNum (Finite 3)), (''height'', JNum (Finite 1)), (''order'', JNum (Finite 0))],
               w_state = [(''enabled'', JBool True), (''visible'', JBool True), (''class'', JStr [])],
               w_hooks = Some actionHooks, w_src = JUndefined, w_onSocketHandlers = False\<rparr>"
  let ?st1 = "[(''enabled'', JBool True), (''visible'', JBool True), (''class'', JStr []),
               (''label'', JStr ''dynamic'')]"
  let ?stp = "[(''name'', JStr ''Renamed'')]"
  have d1: "distinct (map fst (widgets (ui base3)))"
    and d2: "distinct (map fst (pages (ui base3)))"
    and d3: "distinct (map fst (groups (ui base3)))"
    by (simp_all add: base3_def base2_value)
  have w1: "map_of (widgets (ui base3)) ''w1'' = Some ?w1"
    by (simp add: base3_def base2_value)
  have p1: "map_of (pages (ui base3)) ''p1'' = Some page1"
    by (simp add: base3_def base2_value)
  have s1: "statestore_getAll (statestore base3) ''w1'' = Some ?st1"
    by (simp add: base3_def base2_value statestore_getAll_def statestore_set_def)
  have sp: "statestore_getAll (statestore base3) ''p1'' = Some ?stp"
    by (simp add: base3_def base2_value statestore_getAll_def statestore_set_def)
  have e0: "emitted base3 = []"
    by (simp add: base3_def base2_value)
  from emitConfig_rewrites_registry [OF d1 d2 d3, of socketA] w1 s1 p1 sp
  have "map_of (widgets (ui (emitConfig socketA base3))) ''w1''
          = Some (?w1\<lparr>w_props := spread (w_props ?w1) ?st1, w_state := spread (w_state ?w1) ?st1\<rparr>)"
    and "map_of (pages (ui (emitConfig socketA base3))) ''p1'' = Some (spread page1 ?stp)"
    and "emitted (emitConfig socketA base3) = emitted base3 @ [(sock_id socketA, ui (emitConfig socketA base3))]"
    and "inputListeners (emitConfig socketA base3) = inputListeners base3"
    by blast+
  then show ?thesis
    using d1 d2 d3 w1 e0
    by (simp add: spread_def field_def page1_def socketA_def)
qed

text \<open>
  Claim C9 as stated says that the props of before the merge are retained nowhere after
  the first emission. The widget \<open>w1\<close> is registered with the label \<open>press\<close> and the state
  store then holds the label \<open>dynamic\<close> for it. Before the emission the registry's \<open>props\<close>
  and the configuration the widget's input listener closes over are one object; after it
  the registry's \<open>props\<close> has the label \<open>dynamic\<close>, and the listener still holds the
  object with the label \<open>press\<close>.
\<close>

theorem emitConfig_listener_keeps_props_counterexample:
  "map_option (\<lambda>w. Some (w_props w)) (map_of (widgets (ui base3)) ''w1'')
     = map_of (inputListeners base3) ''w1''
   \<and> map_option (\<lambda>w. field (w_props w) ''label'')
        (map_of (widgets (ui (emitConfig socketA base3))) ''w1'')
       = Some (JStr ''dynamic'')
   \<and> map_of (inputListeners (emitConfig socketA base3)) ''w1''
       = Some (Some [(''group'', JStr ''g1''), (''label'', JStr ''press'')])"
  by (simp add: base3_def base2_value emitConfig_def mergeWidgets_def mergeEntries_def
        statestore_getAll_def statestore_set_def spread_def field_def Let_def)

subsection \<open>deregister\<close>

lemma removeGroup_changes: "snd sc \<Longrightarrow> snd (removeGroup grp sc)"
  by (simp add: removeGroup_def split: option.splits)

lemma removePage_changes: "snd sc \<Longrightarrow> snd (removePage page sc)"
  by (simp add: removePage_def split: option.splits)

lemma releaseSocketHooks_ui [simp]: "ui (releaseSocketHooks w s) = ui s"
  by (simp add: releaseSocketHooks_def split: option.splits)

lemma removeGroup_widgets [simp]: "widgets (ui (fst (removeGroup grp sc))) = widgets (ui (fst sc))"
  by (simp add: removeGroup_def setGroups_def split: option.splits)

lemma removePage_widgets [simp]: "widgets (ui (fst (removePage page sc))) = widgets (ui (fst sc))"
  by (simp add: removePage_def setPages_def split: option.splits)

lemma removeGroup_frame [simp]:
  "dashboards (ui (fst (removeGroup grp sc))) = dashboards (ui (fst sc))"
  "themes (ui (fst (removeGroup grp sc))) = themes (ui (fst sc))"
  by (simp_all add: removeGroup_def setGroups_def split: option.splits)

lemma removePage_frame [simp]:
  "dashboards (ui (fst (removePage page sc))) = dashboards (ui (fst sc))"
  "themes (ui (fst (removePage page sc))) = themes (ui (fst sc))"
  by (simp_all add: removePage_def setPages_def split: option.splits)

text \<open>
  Claim C10. \<open>deregister\<close> with a widget node whose id the registry does not hold throws
  a TypeError and changes nothing; with a widget node whose id it holds it returns, the
  widget is gone and an emission is requested. With no page and no group the result is the
  registry without the widget, the widget's socket hooks released.
\<close>

theorem deregister_unknown_widget_throws:
  "(map_of (widgets (ui s)) (n_id wn) = None \<longrightarrow>
      deregister page grp (Some wn) s = Inl TypeError)
   \<and> (\<forall>w. map_of (widgets (ui s)) (n_id wn) = Some w \<longrightarrow>
         (\<exists>s'. deregister page grp (Some wn) s = Inr s'
            \<and> map_of (widgets (ui s')) (n_id wn) = None
            \<and> emitConfigRequested s' \<noteq> None)
         \<and> deregister None None (Some wn) s
             = Inr (requestEmitConfig
                      (setWidgets (AList.delete (n_id wn) (widgets (ui s)))
                         (releaseSocketHooks w s))))"
proof (intro conjI allI impI)
  assume "map_of (widgets (ui s)) (n_id wn) = None"
  then show "deregister page grp (Some wn) s = Inl TypeError"
    by (simp add: deregister_def removeWidget_def)
next
  fix w
  assume present: "map_of (widgets (ui s)) (n_id wn) = Some w"
  let ?s1 = "setWidgets (AList.delete (n_id wn) (widgets (ui s))) (releaseSocketHooks w s)"
  let ?sc = "removePage page (removeGroup grp (?s1, True))"
  have rw: "removeWidget (Some wn) s = Inr (?s1, True)"
    using present by (simp add: removeWidget_def Let_def)
  have changed: "snd ?sc"
    by (simp add: removePage_changes removeGroup_changes)
  then have res: "deregister page grp (Some wn) s = Inr (requestEmitConfig (fst ?sc))"
    by (simp add: deregister_def rw Let_def)
  have "map_of (widgets (ui (requestEmitConfig (fst ?sc)))) (n_id wn) = None"
    by (simp add: setWidgets_def delete_conv')
  with res requestEmitConfig_requested [of "fst ?sc"]
  show "\<exists>s'. deregister page grp (Some wn) s = Inr s'
            \<and> map_of (widgets (ui s')) (n_id wn) = None \<and> emitConfigRequested s' \<noteq> None"
    by blast
  show "deregister None None (Some wn) s = Inr (requestEmitConfig ?s1)"
    by (simp add: deregister_def rw Let_def removeGroup_def removePage_def)
qed

lemmas deregister_eval =
  deregister_def removeWidget_def removeGroup_def removePage_def releaseSocketHooks_def
  setWidgets_def setGroups_def setPages_def entryProp_def optChain_def requestEmitConfig_def
  idOf_def field_def group1_def page1_def node0_def actionHooks_def socketA_def socketB_def
  Let_def

theorem deregister_unknown_widget_throws_witness:
  "map_of (widgets (ui base2)) (n_id (node0 ''w9'' ''ui-button'')) = None
   \<and> deregister None None (Some (node0 ''w9'' ''ui-button'')) base2 = Inl TypeError
   \<and> map_option w_id (map_of (widgets (ui base2)) (n_id (node0 ''w1'' ''ui-button''))) = Some ''w1''
   \<and> (\<exists>s'. deregister None None (Some (node0 ''w1'' ''ui-button'')) base2 = Inr s'
          \<and> map fst (widgets (ui s')) = [''w2''])"
proof -
  let ?w1 = "\<lparr>w_id = ''w1'', w_type = ''ui-button'',
               w_props = [(''group'', JStr ''g1''), (''label'', JStr ''press'')],
               w_layout = [(''width'', JNum (Finite 3)), (''height'', JNum (Finite 1)), (''order'', JNum (Finite 0))],
               w_state = [(''enabled'', JBool True), (''visible'', JBool True), (''class'', JStr [])],
               w_hooks = Some actionHooks, w_src = JUndefined, w_onSocketHandlers = False\<rparr>"
  have absent: "map_of (widgets (ui base2)) (n_id (node0 ''w9'' ''ui-button'')) = None"
    by (simp add: base2_value node0_def)
  have present: "map_of (widgets (ui base2)) (n_id (node0 ''w1'' ''ui-button'')) = Some ?w1"
    by (simp add: base2_value node0_def)
  from deregister_unknown_widget_throws [of base2 "node0 ''w9'' ''ui-button''" None None] absent
  have thrown: "deregister None None (Some (node0 ''w9'' ''ui-button'')) base2 = Inl TypeError"
    by blast
  from deregister_unknown_widget_throws [of base2 "node0 ''w1'' ''ui-button''" None None] present
  have "deregister None None (Some (node0 ''w1'' ''ui-button'')) base2
          = Inr (requestEmitConfig
                   (setWidgets (AList.delete (n_id (node0 ''w1'' ''ui-button'')) (widgets (ui base2)))
                      (releaseSocketHooks ?w1 base2)))"
    by blast
  then have "\<exists>s'. deregister None None (Some (node0 ''w1'' ''ui-button'')) base2 = Inr s'
          \<and> map fst (widgets (ui s')) = [''w2'']"
    by (simp add: setWidgets_def node0_def base2_value)
  with absent present thrown show ?thesis
    by simp
qed

text \<open>
  What \<open>deregister\<close> never touches, and what it does whenever it is given a group or a
  page whose id is defined: the entry goes, whatever the registry still holds for it.
\<close>

lemma deregister_keeps_dashboards_and_themes:
  assumes "deregister page grp widgetNode s = Inr s'"
  shows "dashboards (ui s') = dashboards (ui s) \<and> themes (ui s') = themes (ui s)"
proof -
  from assms obtain sc where rw: "removeWidget widgetNode s = Inr sc"
    and s': "s' = (let sc' = removePage page (removeGroup grp sc)
                   in if snd sc' then requestEmitConfig (fst sc') else fst sc')"
    by (auto simp: deregister_def Let_def split: sum.splits)
  from rw have "dashboards (ui (fst sc)) = dashboards (ui s) \<and> themes (ui (fst sc)) = themes (ui s)"
    by (auto simp: removeWidget_def setWidgets_def Let_def split: option.splits)
  with s' show ?thesis
    by (simp add: Let_def)
qed

lemma removeGroup_always:
  assumes "field g ''id'' \<noteq> JUndefined"
  shows "removeGroup (Some g) sc
           = (setGroups (AList.delete (idOf g) (groups (ui (fst sc)))) (fst sc), True)"
proof -
  have "filter (\<lambda>w. optChain (entryProp w ''props'') ''group'' = field g ''id'') ws = []"
    for ws :: "(string \<times> widget) list"
    using assms by (simp add: entryProp_def optChain_def filter_empty_conv)
  then show ?thesis
    by (simp add: removeGroup_def)
qed

lemma removePage_always:
  assumes "field p ''id'' \<noteq> JUndefined"
  shows "removePage (Some p) sc
           = (setPages (AList.delete (idOf p) (pages (ui (fst sc)))) (fst sc), True)"
proof -
  have "filter (\<lambda>g. entryProp g ''page'' = field p ''id'') gs = []"
    for gs :: "(string \<times> obj) list"
    using assms by (simp add: entryProp_def filter_empty_conv)
  then show ?thesis
    by (simp add: removePage_def)
qed

text \<open>
  Claim C3 at a failing input. Two widgets \<open>w1\<close> and \<open>w2\<close> belong to group \<open>g1\<close>, which
  belongs to page \<open>p1\<close>. Deregistering \<open>w1\<close> with its group removes the group although
  \<open>w2\<close> is still in it, and deregistering the page alone removes the page although the
  group still belongs to it: both counts read a property of a Map entry, find
  \<open>undefined\<close>, and are always zero.
\<close>

theorem deregister_removes_group_in_use:
  "map (\<lambda>w. (fst w, field (w_props (snd w)) ''group'')) (widgets (ui base2))
     = [(''w1'', JStr ''g1''), (''w2'', JStr ''g1'')]
   \<and> map fst (groups (ui base2)) = [''g1'']
   \<and> map (\<lambda>g. (fst g, field (snd g) ''page'')) (groups (ui base2)) = [(''g1'', JStr ''p1'')]
   \<and> (case deregister None (Some group1) (Some (node0 ''w1'' ''ui-button'')) base2 of
         Inl e \<Rightarrow> False
       | Inr s' \<Rightarrow>
           map (\<lambda>w. (fst w, field (w_props (snd w)) ''group'')) (widgets (ui s'))
             = [(''w2'', JStr ''g1'')]
           \<and> groups (ui s') = [])
   \<and> (case deregister (Some page1) None None base2 of
         Inl e \<Rightarrow> False
       | Inr s' \<Rightarrow>
           map (\<lambda>g. (fst g, field (snd g) ''page'')) (groups (ui s')) = [(''g1'', JStr ''p1'')]
           \<and> pages (ui s') = [])"
  by (simp add: base2_value deregister_eval)

subsection \<open>onAction\<close>

lemma onAction_unfold:
  assumes "truthy (runActionHooks (plugins e) conn wid msg0)"
    and "getWidgetAndConfig e s wid = (wNode, widgetConfig, widgetEvents, widget)"
  shows "onAction e conn wid msg0 s =
           (case wNode of
              None \<Rightarrow> s
            | Some wn \<Rightarrow>
                if \<not> hk_onAction widgetEvents then s
                else
                  (case appendTopic e widgetConfig wn
                          (actionMessage e conn (runActionHooks (plugins e) conn wid msg0)) of
                     Inl err \<Rightarrow> reportError widgetEvents wn err s
                   | Inr msg4 \<Rightarrow>
                       (case hk_beforeSend widgetEvents of
                          None \<Rightarrow> sendOn wn msg4 s
                        | Some beforeSend \<Rightarrow>
                            (case beforeSend msg4 of
                               Inl err \<Rightarrow> reportError widgetEvents wn err s
                             | Inr msg5 \<Rightarrow> sendOn wn msg5 s))))"
  using assms by (simp add: onAction_def Let_def split: option.splits)

text \<open>
  Claim C8, as the code has it. For a message that the \<open>onAction\<close> hooks leave truthy:
  when the widget's node cannot be resolved, or the widget has no \<open>onAction\<close> hook, nothing
  happens; otherwise the message is decorated with the topic, passed through
  \<open>beforeSend\<close> when the widget has one, and sent on through the widget's node, unless the
  decoration or \<open>beforeSend\<close> throws, in which case the error is reported and nothing is sent.
\<close>

theorem onAction_forwards_when_hooked:
  assumes "truthy (runActionHooks (plugins e) conn wid msg0)"
    and "getWidgetAndConfig e s wid = (wNode, widgetConfig, widgetEvents, widget)"
  shows "(wNode = None \<longrightarrow> onAction e conn wid msg0 s = s)
       \<and> (\<not> hk_onAction widgetEvents \<longrightarrow> onAction e conn wid msg0 s = s)
       \<and> (\<forall>wn. wNode = Some wn \<and> hk_onAction widgetEvents \<longrightarrow>
            (\<forall>err. appendTopic e widgetConfig wn
                      (actionMessage e conn (runActionHooks (plugins e) conn wid msg0)) = Inl err \<longrightarrow>
                onAction e conn wid msg0 s = reportError widgetEvents wn err s)
          \<and> (\<forall>msg4. appendTopic e widgetConfig wn
                       (actionMessage e conn (runActionHooks (plugins e) conn wid msg0)) = Inr msg4 \<longrightarrow>
                (hk_beforeSend widgetEvents = None \<longrightarrow>
                   onAction e conn wid msg0 s = sendOn wn msg4 s)
              \<and> (\<forall>beforeSend msg5. hk_beforeSend widgetEvents = Some beforeSend
                                     \<and> beforeSend msg4 = Inr msg5 \<longrightarrow>
                   onAction e conn wid msg0 s = sendOn wn msg5 s)
              \<and> (\<forall>beforeSend err. hk_beforeSend widgetEvents = Some beforeSend
                                   \<and> beforeSend msg4 = Inl err \<longrightarrow>
                   onAction e conn wid msg0 s = reportError widgetEvents wn err s)))"
proof (intro conjI allI impI)
  assume "wNode = None"
  then show "onAction e conn wid msg0 s = s"
    by (simp add: onAction_unfold [OF assms])
next
  assume "\<not> hk_onAction widgetEvents"
  then show "onAction e conn wid msg0 s = s"
    by (simp add: onAction_unfold [OF assms] split: option.splits)
next
  fix wn err
  assume "wNode = Some wn \<and> hk_onAction widgetEvents"
    and "appendTopic e widgetConfig wn
           (actionMessage e conn (runActionHooks (plugins e) conn wid msg0)) = Inl err"
  then show "onAction e conn wid msg0 s = reportError widgetEvents wn err s"
    by (simp add: onAction_unfold [OF assms])
next
  fix wn msg4
  assume hooked: "wNode = Some wn \<and> hk_onAction widgetEvents"
    and topic: "appendTopic e widgetConfig wn
           (actionMessage e conn (runActionHooks (plugins e) conn wid msg0)) = Inr msg4"
  {
    assume "hk_beforeSend widgetEvents = None"
    with hooked topic show "onAction e conn wid msg0 s = sendOn wn msg4 s"
      by (simp add: onAction_unfold [OF assms])
  next
    fix beforeSend msg5
    assume "hk_beforeSend widgetEvents = Some beforeSend \<and> beforeSend msg4 = Inr msg5"
    with hooked topic show "onAction e conn wid msg0 s = sendOn wn msg5 s"
      by (simp add: onAction_unfold [OF assms])
  next
    fix beforeSend err
    assume "hk_beforeSend widgetEvents = Some beforeSend \<and> beforeSend msg4 = Inl err"
    with hooked topic show "onAction e conn wid msg0 s = reportError widgetEvents wn err s"
      by (simp add: onAction_unfold [OF assms])
  }
qed

lemmas action_eval =
  onAction_def runActionHooks_def actionMessage_def getWidgetAndConfig_def sendOn_def
  reportError_def noHooks_def env0_def node0_def actionHooks_def socketA_def Let_def

theorem onAction_forwards_when_hooked_witness:
  "truthy (runActionHooks (plugins env0) socketA ''w1'' (JNum (Finite 5)))
   \<and> getNode env0 ''w1'' = Some (node0 ''w1'' ''ui-button'')
   \<and> onAction env0 socketA ''w1'' (JNum (Finite 5)) base2
       = sendOn (node0 ''w1'' ''ui-button'') (JObj [(''payload'', JNum (Finite 5))]) base2
   \<and> sent (onAction env0 socketA ''w1'' (JNum (Finite 5)) base2) = [(''w1'', JObj [(''payload'', JNum (Finite 5))])]
   \<and> getNode env0 ''w9'' = None
   \<and> onAction env0 socketA ''w9'' (JNum (Finite 5)) base2 = base2
   \<and> fst (snd (snd (getWidgetAndConfig env0 base2 ''w2''))) = noHooks
   \<and> onAction env0 socketA ''w2'' (JNum (Finite 5)) base2 = base2"
proof -
  let ?w1 = "\<lparr>w_id = ''w1'', w_type = ''ui-button'',
               w_props = [(''group'', JStr ''g1''), (''label'', JStr ''press'')],
               w_layout = [(''width'', JNum (Finite 3)), (''height'', JNum (Finite 1)), (''order'', JNum (Finite 0))],
               w_state = [(''enabled'', JBool True), (''visible'', JBool True), (''class'', JStr [])],
               w_hooks = Some actionHooks, w_src = JUndefined, w_onSocketHandlers = False\<rparr>"
  have t: "truthy (runActionHooks (plugins env0) socketA wid (JNum (Finite 5)))" for wid
    by (simp add: runActionHooks_def env0_def)
  have g1: "getWidgetAndConfig env0 base2 ''w1''
              = (Some (node0 ''w1'' ''ui-button''), w_props ?w1, actionHooks, Some ?w1)"
    by (simp add: getWidgetAndConfig_def base2_value env0_def node0_def)
  have g9: "getWidgetAndConfig env0 base2 ''w9'' = (None, [], noHooks, None)"
    by (simp add: getWidgetAndConfig_def base2_value env0_def)
  have "\<exists>w2. getWidgetAndConfig env0 base2 ''w2''
               = (Some (node0 ''w2'' ''ui-button''), w_props w2, noHooks, Some w2)"
    by (simp add: getWidgetAndConfig_def base2_value env0_def node0_def)
  then obtain w2 where g2: "getWidgetAndConfig env0 base2 ''w2''
                         = (Some (node0 ''w2'' ''ui-button''), w_props w2, noHooks, Some w2)"
    by blast
  have unhooked: "\<not> hk_onAction noHooks"
    by (simp add: noHooks_def)
  have topic: "appendTopic env0 (w_props ?w1) (node0 ''w1'' ''ui-button'')
                 (actionMessage env0 socketA (runActionHooks (plugins env0) socketA ''w1'' (JNum (Finite 5))))
               = Inr (JObj [(''payload'', JNum (Finite 5))])"
    by (simp add: actionMessage_def runActionHooks_def env0_def)
  have hooked: "hk_onAction actionHooks" and plain: "hk_beforeSend actionHooks = None"
    by (simp_all add: actionHooks_def)
  from onAction_forwards_when_hooked [OF t g1] hooked plain topic
  have fwd: "onAction env0 socketA ''w1'' (JNum (Finite 5)) base2
          = sendOn (node0 ''w1'' ''ui-button'') (JObj [(''payload'', JNum (Finite 5))]) base2"
    by blast
  from onAction_forwards_when_hooked [OF t g9]
  have noop: "onAction env0 socketA ''w9'' (JNum (Finite 5)) base2 = base2"
    by blast
  from onAction_forwards_when_hooked [OF t g2] unhooked
  have skipped: "onAction env0 socketA ''w2'' (JNum (Finite 5)) base2 = base2"
    by blast
  have "sent (sendOn (node0 ''w1'' ''ui-button'') (JObj [(''payload'', JNum (Finite 5))]) base2)
          = [(''w1'', JObj [(''payload'', JNum (Finite 5))])]"
    by (simp add: sendOn_def base2_value node0_def)
  with fwd noop skipped g2 t show ?thesis
    by (simp add: env0_def node0_def)
qed

text \<open>
  Claim C8 as stated fails for a widget that resolves but registered no \<open>onAction\<close> hook:
  the action on \<open>w2\<close> sends nothing.
\<close>

theorem onAction_unhooked_widget_counterexample:
  "truthy (runActionHooks (plugins env0) socketA ''w2'' (JNum (Finite 5)))
   \<and> getNode env0 ''w2'' = Some (node0 ''w2'' ''ui-button'')
   \<and> map_option w_id (map_of (widgets (ui base2)) ''w2'') = Some ''w2''
   \<and> onAction env0 socketA ''w2'' (JNum (Finite 5)) base2 = base2
   \<and> sent (onAction env0 socketA ''w2'' (JNum (Finite 5)) base2) = []"
  by (simp add: base2_value action_eval)

end
